theory Spec2Isabelle
  imports Main "HOL-Library.Word"
begin

section \<open>Bytes, hex strings and big integers\<close>

text \<open>
  The scripts pass every key, point and digest around as a value of viem's type
  \<open>Hex\<close> (a JavaScript string that starts with \<open>0x\<close>) and convert to and from
  \<open>Uint8Array\<close> with viem's \<open>bytesToHex\<close> and \<open>hexToBytes\<close>. A \<open>Uint8Array\<close> is a
  list of 8-bit words here, a JavaScript string is a \<open>string\<close>, a \<open>BigInt\<close> is an
  \<open>int\<close>. A thrown exception is the left summand of a sum.
\<close>

type_synonym byte = "8 word"
type_synonym Hex = string

datatype error =
    InvalidByteSequence   \<comment> \<open>viem \<open>hexToBytes\<close> / noble \<open>hexToBytes\<close> on a non-hex character (or odd length, noble)\<close>
  | SyntaxError           \<comment> \<open>\<open>BigInt(string)\<close> on a string that is no integer literal\<close>
  | InvalidPrivateKey     \<comment> \<open>noble: private key not 32 bytes or not in 1 .. n-1\<close>
  | InvalidPoint          \<comment> \<open>noble: bytes that decode to no curve point, or a point that cannot be encoded\<close>

text \<open>\<open>const CURVE_ORDER = BigInt("0xFFFF...4141")\<close>, the order of secp256k1's base point.\<close>

definition CURVE_ORDER :: int where
  "CURVE_ORDER = 0xFFFFFFFFFFFFFFFFFFFFFFFFFFFFFFFEBAAEDCE6AF48A03BBFD25E8CD0364141"

text \<open>\<open>const SCHEME_ID = 1\<close>.\<close>

definition SCHEME_ID :: int where
  "SCHEME_ID = 1"

subsection \<open>viem: \<open>bytesToHex\<close>, \<open>hexToBytes\<close>\<close>

text \<open>
  \<open>bytesToHex\<close> looks every byte up in the table
  \<open>hexes = Array.from({length: 256}, (_, i) => i.toString(16).padStart(2, '0'))\<close>
  and puts \<open>0x\<close> in front.
\<close>

definition hexDigit :: "nat \<Rightarrow> char" where
  "hexDigit d = ''0123456789abcdef'' ! (d mod 16)"

definition hexes :: "byte \<Rightarrow> string" where
  "hexes b = [hexDigit (unat b div 16), hexDigit (unat b mod 16)]"

definition bytesToHex :: "byte list \<Rightarrow> Hex" where
  "bytesToHex bs = ''0x'' @ concat (map hexes bs)"

text \<open>
  \<open>charCodeToBase16\<close> of viem: the digits, \<open>A\<close>..\<open>F\<close> and \<open>a\<close>..\<open>f\<close>; \<open>undefined\<close>
  (here \<open>None\<close>) for every other character.
\<close>

definition charCodeToBase16 :: "char \<Rightarrow> nat option" where
  "charCodeToBase16 c =
     (let code = (of_char c :: nat) in
      if 48 \<le> code \<and> code \<le> 57 then Some (code - 48)
      else if 65 \<le> code \<and> code \<le> 70 then Some (code - 55)
      else if 97 \<le> code \<and> code \<le> 102 then Some (code - 87)
      else None)"

text \<open>The loop of \<open>hexToBytes\<close> over the pairs of nibbles.\<close>

fun hexPairs :: "string \<Rightarrow> error + byte list" where
  "hexPairs [] = Inr []"
| "hexPairs [c] = Inl InvalidByteSequence"
| "hexPairs (l # r # rest) =
     (case (charCodeToBase16 l, charCodeToBase16 r) of
        (Some nibbleLeft, Some nibbleRight) \<Rightarrow>
          (case hexPairs rest of
             Inl e \<Rightarrow> Inl e
           | Inr bs \<Rightarrow> Inr (of_nat (nibbleLeft * 16 + nibbleRight) # bs))
      | _ \<Rightarrow> Inl InvalidByteSequence)"

text \<open>
  viem's \<open>hexToBytes\<close>: \<open>hex.slice(2)\<close> (whatever the first two characters are), a
  \<open>0\<close> in front when the length is odd, then the pairs.
\<close>

definition hexToBytes :: "Hex \<Rightarrow> error + byte list" where
  "hexToBytes hex =
     (let hexString = drop 2 hex;
          hexString = (if odd (length hexString) then CHR ''0'' # hexString else hexString)
      in hexPairs hexString)"

subsection \<open>\<open>BigInt(hex)\<close>, \<open>%\<close>, \<open>toString(16)\<close>, \<open>padStart\<close>\<close>

text \<open>Big-endian value of a byte array (noble's \<open>bytesToNumber\<close>).\<close>

definition bytesToNumber :: "byte list \<Rightarrow> nat" where
  "bytesToNumber bs = foldl (\<lambda>acc b. acc * 256 + unat b) 0 bs"

text \<open>The value of a string of hex digits; \<open>None\<close> when a character is no hex digit.\<close>

fun hexValue :: "nat \<Rightarrow> string \<Rightarrow> nat option" where
  "hexValue acc [] = Some acc"
| "hexValue acc (c # cs) =
     (case charCodeToBase16 c of
        None \<Rightarrow> None
      | Some d \<Rightarrow> hexValue (acc * 16 + d) cs)"

text \<open>
  JavaScript's white space, as far as it is ASCII (a \<open>char\<close> is a byte here): TAB, LF, VT,
  FF, CR and the space. \<open>BigInt(string)\<close> trims it on both sides.
\<close>

definition isWhiteSpace :: "char \<Rightarrow> bool" where
  "isWhiteSpace c = (let code = (of_char c :: nat) in (9 \<le> code \<and> code \<le> 13) \<or> code = 32)"

definition trimEnd :: "string \<Rightarrow> string" where
  "trimEnd s = rev (dropWhile isWhiteSpace (rev s))"

text \<open>
  \<open>BigInt(s)\<close> for an argument of type \<open>Hex\<close>, the only use the scripts make of it: the
  string starts with \<open>0x\<close>, so it is a hexadecimal integer literal or a \<open>SyntaxError\<close>.
  A string without the prefix is outside the type \<open>Hex\<close>; it is mapped to the error as
  well (JavaScript would read it as a decimal literal).
\<close>

definition BigInt :: "Hex \<Rightarrow> error + int" where
  "BigInt s =
     (let t = trimEnd s in
      if take 2 t = ''0x'' \<and> drop 2 t \<noteq> [] then
        (case hexValue 0 (drop 2 t) of
           None \<Rightarrow> Inl SyntaxError
         | Some v \<Rightarrow> Inr (int v))
      else Inl SyntaxError)"

text \<open>
  The remainder operator \<open>%\<close> of \<open>BigInt\<close> truncates towards zero: the result has the sign
  of the dividend. (A zero divisor throws; the only divisor in the scripts is
  \<open>CURVE_ORDER\<close>.)
\<close>

definition bigint_rem :: "int \<Rightarrow> int \<Rightarrow> int" where
  "bigint_rem a b = sgn a * (\<bar>a\<bar> mod \<bar>b\<bar>)"

text \<open>\<open>n.toString(16)\<close>: the hex digits without leading zeros, \<open>0\<close> for zero, a minus sign first for a negative value.\<close>

function digits16 :: "nat \<Rightarrow> string" where
  "digits16 n = (if n < 16 then [hexDigit n] else digits16 (n div 16) @ [hexDigit (n mod 16)])"
  by pat_completeness auto
termination
  by (relation "measure (\<lambda>n. n)") auto

declare digits16.simps [simp del]

definition toString16 :: "int \<Rightarrow> string" where
  "toString16 i = (if i < 0 then CHR ''-'' # digits16 (nat (- i)) else digits16 (nat i))"

definition padStart :: "nat \<Rightarrow> char \<Rightarrow> string \<Rightarrow> string" where
  "padStart targetLength c s = replicate (targetLength - length s) c @ s"

subsection \<open>\<open>toLowerCase\<close>, \<open>toUpperCase\<close>\<close>

text \<open>On ASCII letters only: a \<open>char\<close> is a byte.\<close>

definition toLowerChar :: "char \<Rightarrow> char" where
  "toLowerChar c =
     (let code = (of_char c :: nat) in
      if 65 \<le> code \<and> code \<le> 90 then char_of (code + 32) else c)"

definition toUpperChar :: "char \<Rightarrow> char" where
  "toUpperChar c =
     (let code = (of_char c :: nat) in
      if 97 \<le> code \<and> code \<le> 122 then char_of (code - 32) else c)"

definition toLowerCase :: "string \<Rightarrow> string" where
  "toLowerCase s = map toLowerChar s"

section \<open>The libraries the scripts call\<close>

text \<open>
  The scripts compute nothing on the curve themselves: they call \<open>@noble/secp256k1\<close>
  (\<open>getPublicKey\<close>, \<open>getSharedSecret\<close>, \<open>Point.fromHex\<close>, \<open>add\<close>, \<open>toHex\<close>) and viem
  (\<open>keccak256\<close>, \<open>privateKeyToAddress\<close>). Neither library is part of the repository,
  so the curve and the hash are a parameter of every definition below: a record of the
  group operation on points, the point encoding, and the hash. What the libraries
  promise of them is the predicate \<open>library_ok\<close>; the library functions the scripts
  call are written out over that record, following the libraries' documentation.
\<close>

record 'p library =
  ZERO :: 'p                                         \<comment> \<open>the point at infinity, \<open>Point.ZERO\<close>\<close>
  BASE :: 'p                                         \<comment> \<open>the generator \<open>G\<close>, \<open>Point.BASE\<close>\<close>
  onCurve :: "'p \<Rightarrow> bool"                            \<comment> \<open>a point of the curve, or \<open>ZERO\<close>\<close>
  pointAdd :: "'p \<Rightarrow> 'p \<Rightarrow> 'p"                       \<comment> \<open>\<open>p.add(q)\<close>: total, may return \<open>ZERO\<close>\<close>
  toRawBytes :: "'p \<Rightarrow> bool \<Rightarrow> byte list option"     \<comment> \<open>\<open>p.toRawBytes(isCompressed)\<close>; \<open>None\<close> when it throws\<close>
  fromBytes :: "byte list \<Rightarrow> 'p option"              \<comment> \<open>decoding of a public key; \<open>None\<close> when it throws\<close>
  keccak_256 :: "byte list \<Rightarrow> byte list"             \<comment> \<open>the Keccak-256 digest\<close>

text \<open>
  \<open>p.multiply(n)\<close> by double-and-add, as noble's loop
  \<open>while (n > 0n) { if (n & 1n) p = p.add(d); d = d.double(); n >>= 1n; }\<close>.
\<close>

function doubleAndAdd :: "'p library \<Rightarrow> 'p \<Rightarrow> 'p \<Rightarrow> nat \<Rightarrow> 'p" where
  "doubleAndAdd L p d n =
     (if n = 0 then p
      else doubleAndAdd L (if odd n then pointAdd L p d else p) (pointAdd L d d) (n div 2))"
  by pat_completeness auto
termination
  by (relation "measure (\<lambda>(L, p, d, n). n)") auto

declare doubleAndAdd.simps [simp del]

definition multiply :: "'p library \<Rightarrow> 'p \<Rightarrow> nat \<Rightarrow> 'p" where
  "multiply L q n = doubleAndAdd L (ZERO L) q n"

text \<open>The \<open>n\<close>-fold sum of a point, the specification of \<open>multiply\<close>.\<close>

primrec nTimes :: "'p library \<Rightarrow> nat \<Rightarrow> 'p \<Rightarrow> 'p" where
  "nTimes L 0 q = ZERO L"
| "nTimes L (Suc n) q = pointAdd L q (nTimes L n q)"

text \<open>
  What is assumed of the libraries: the points of the curve with \<open>ZERO\<close> are a
  commutative monoid under \<open>add\<close>; the generator has order \<open>CURVE_ORDER\<close> (noble's
  \<open>CURVE.n\<close> is the same number); every point but \<open>ZERO\<close> has a compressed and an
  uncompressed encoding, and decoding a compressed encoding gives the point back;
  decoding only ever yields points of the curve; a digest has 32 bytes. Nothing is
  assumed of the encoding of \<open>ZERO\<close>: noble 1.x prints its coordinates \<open>(0, 0)\<close>,
  later versions throw.
\<close>

definition library_ok :: "'p library \<Rightarrow> bool" where
  "library_ok L \<longleftrightarrow>
     onCurve L (ZERO L) \<and> onCurve L (BASE L) \<and>
     (\<forall>a b. onCurve L a \<and> onCurve L b \<longrightarrow> onCurve L (pointAdd L a b)) \<and>
     (\<forall>a b c. onCurve L a \<and> onCurve L b \<and> onCurve L c \<longrightarrow>
        pointAdd L (pointAdd L a b) c = pointAdd L a (pointAdd L b c)) \<and>
     (\<forall>a b. onCurve L a \<and> onCurve L b \<longrightarrow> pointAdd L a b = pointAdd L b a) \<and>
     (\<forall>a. onCurve L a \<longrightarrow> pointAdd L (ZERO L) a = a) \<and>
     nTimes L (nat CURVE_ORDER) (BASE L) = ZERO L \<and>
     (\<forall>k. 0 < k \<and> k < nat CURVE_ORDER \<longrightarrow> nTimes L k (BASE L) \<noteq> ZERO L) \<and>
     (\<forall>p c. onCurve L p \<and> p \<noteq> ZERO L \<longrightarrow> toRawBytes L p c \<noteq> None) \<and>
     (\<forall>p bs. onCurve L p \<and> p \<noteq> ZERO L \<and> toRawBytes L p True = Some bs \<longrightarrow>
        fromBytes L bs = Some p) \<and>
     (\<forall>bs p. fromBytes L bs = Some p \<longrightarrow> onCurve L p) \<and>
     (\<forall>bs. length (keccak_256 L bs) = 32)"

text \<open>Sequencing of calls that may throw.\<close>

definition andThen :: "error + 'a \<Rightarrow> ('a \<Rightarrow> error + 'b) \<Rightarrow> error + 'b" where
  "andThen m f = (case m of Inl e \<Rightarrow> Inl e | Inr x \<Rightarrow> f x)"

subsection \<open>\<open>@noble/secp256k1\<close>\<close>

text \<open>
  A private key is valid when it has 32 bytes and its big-endian value is in
  \<open>1 .. n - 1\<close>; every function that takes one throws otherwise.
\<close>

definition isValidPrivateKey :: "byte list \<Rightarrow> bool" where
  "isValidPrivateKey privateKey \<longleftrightarrow>
     length privateKey = 32 \<and> 0 < bytesToNumber privateKey \<and>
     int (bytesToNumber privateKey) < CURVE_ORDER"

definition encodePoint :: "'p library \<Rightarrow> 'p \<Rightarrow> bool \<Rightarrow> error + byte list" where
  "encodePoint L p isCompressed =
     (case toRawBytes L p isCompressed of None \<Rightarrow> Inl InvalidPoint | Some bs \<Rightarrow> Inr bs)"

definition decodePoint :: "'p library \<Rightarrow> byte list \<Rightarrow> error + 'p" where
  "decodePoint L bs = (case fromBytes L bs of None \<Rightarrow> Inl InvalidPoint | Some p \<Rightarrow> Inr p)"

text \<open>\<open>Point.fromPrivateKey(privateKey)\<close>: the point \<open>privateKey\<cdot>G\<close>.\<close>

definition secp_fromPrivateKey :: "'p library \<Rightarrow> byte list \<Rightarrow> error + 'p" where
  "secp_fromPrivateKey L privateKey =
     (if isValidPrivateKey privateKey
      then Inr (multiply L (BASE L) (bytesToNumber privateKey))
      else Inl InvalidPrivateKey)"

text \<open>
  \<open>secp256k1.getPublicKey(privateKey, isCompressed)\<close>:
  \<open>Point.fromPrivateKey(privateKey).toRawBytes(isCompressed)\<close>.
\<close>

definition secp_getPublicKey :: "'p library \<Rightarrow> byte list \<Rightarrow> bool \<Rightarrow> error + byte list" where
  "secp_getPublicKey L privateKey isCompressed =
     andThen (secp_fromPrivateKey L privateKey) (\<lambda>p. encodePoint L p isCompressed)"

text \<open>
  \<open>secp256k1.getSharedSecret(privateA, publicB, isCompressed)\<close>: the encoding of
  \<open>privateA\<cdot>publicB\<close>; the public key is decoded and checked first.
\<close>

definition secp_getSharedSecret ::
  "'p library \<Rightarrow> byte list \<Rightarrow> byte list \<Rightarrow> bool \<Rightarrow> error + byte list" where
  "secp_getSharedSecret L privateA publicB isCompressed =
     andThen (decodePoint L publicB) (\<lambda>b.
       if isValidPrivateKey privateA
       then encodePoint L (multiply L b (bytesToNumber privateA)) isCompressed
       else Inl InvalidPrivateKey)"

text \<open>
  \<open>Point.fromHex(hex)\<close> for a hex string without \<open>0x\<close>: noble's own \<open>hexToBytes\<close> (an
  even number of hex digits, no prefix), then the decoding.
\<close>

definition secp_fromHex :: "'p library \<Rightarrow> string \<Rightarrow> error + 'p" where
  "secp_fromHex L hex = andThen (hexPairs hex) (\<lambda>bs. decodePoint L bs)"

text \<open>\<open>p.toHex(isCompressed)\<close>: the encoding as hex digits, without \<open>0x\<close>.\<close>

definition secp_toHex :: "'p library \<Rightarrow> 'p \<Rightarrow> bool \<Rightarrow> error + string" where
  "secp_toHex L p isCompressed =
     andThen (encodePoint L p isCompressed) (\<lambda>bs. Inr (concat (map hexes bs)))"

subsection \<open>viem: \<open>keccak256\<close>, \<open>privateKeyToAddress\<close>\<close>

text \<open>\<open>keccak256(bytes)\<close> returns the digest as \<open>Hex\<close>.\<close>

definition keccak256 :: "'p library \<Rightarrow> byte list \<Rightarrow> Hex" where
  "keccak256 L bs = bytesToHex (keccak_256 L bs)"

text \<open>
  \<open>checksumAddress\<close> (EIP-55): hash the lower-case hex digits as text and put each of
  the first 40 characters in upper case when its nibble of the hash is 8 or more.
\<close>

definition nibbles :: "byte list \<Rightarrow> nat list" where
  "nibbles bs = concat (map (\<lambda>b. [unat b div 16, unat b mod 16]) bs)"

definition stringToBytes :: "string \<Rightarrow> byte list" where
  "stringToBytes s = map (\<lambda>c. of_nat (of_char c)) s"

definition checksumAddress :: "'p library \<Rightarrow> Hex \<Rightarrow> Hex" where
  "checksumAddress L addr =
     (let hexAddress = toLowerCase (drop 2 addr);
          hash = nibbles (keccak_256 L (stringToBytes hexAddress))
      in ''0x'' @ map (\<lambda>(i, c). if i < 40 \<and> i < length hash \<and> 8 \<le> hash ! i
                                 then toUpperChar c else c)
                    (zip [0..<length hexAddress] hexAddress))"

text \<open>
  \<open>publicKeyToAddress(publicKey)\<close>:
  \<open>checksumAddress(`0x${keccak256(`0x${publicKey.substring(4)}`).substring(26)}`)\<close>.
\<close>

definition publicKeyToAddress :: "'p library \<Rightarrow> Hex \<Rightarrow> error + Hex" where
  "publicKeyToAddress L publicKey =
     andThen (hexToBytes (''0x'' @ drop 4 publicKey)) (\<lambda>bs.
       let address = drop 26 (keccak256 L bs)
       in Inr (checksumAddress L (''0x'' @ address)))"

text \<open>
  \<open>privateKeyToAddress(privateKey)\<close>:
  \<open>publicKeyToAddress(bytesToHex(secp256k1.getPublicKey(privateKey.slice(2), false)))\<close>.
\<close>

definition privateKeyToAddress :: "'p library \<Rightarrow> Hex \<Rightarrow> error + Hex" where
  "privateKeyToAddress L privateKey =
     andThen (hexPairs (drop 2 privateKey)) (\<lambda>sk.
     andThen (secp_getPublicKey L sk False) (\<lambda>pk.
       publicKeyToAddress L (bytesToHex pk)))"

section \<open>\<open>src/scripts/test-stealth-address.ts\<close>\<close>

text \<open>
  The same helper functions, generator and scanner stand in the three walkthrough
  scripts (\<open>src/unnamed/part_000\<close>, the second script of \<open>part_001\<close>, \<open>part_002\<close>),
  which add narration, a mock registry and a mock announcer around them.

  \<open>function generatePrivateKey(): Hex { return bytesToHex(crypto.getRandomValues(new Uint8Array(32))); }\<close>

  The 32 bytes that \<open>crypto.getRandomValues\<close> draws are the argument: the function
  itself does nothing else than print them as hex.
\<close>

definition generatePrivateKey :: "byte list \<Rightarrow> Hex" where
  "generatePrivateKey randomValues = bytesToHex randomValues"

text \<open>
  \<open>function getPublicKey(privateKey: Hex): Hex {
     const pubKey = secp256k1.getPublicKey(hexToBytes(privateKey), true);
     return bytesToHex(pubKey); }\<close>
\<close>

definition getPublicKey :: "'p library \<Rightarrow> Hex \<Rightarrow> error + Hex" where
  "getPublicKey L privateKey =
     andThen (hexToBytes privateKey) (\<lambda>sk.
     andThen (secp_getPublicKey L sk True) (\<lambda>pubKey.
       Inr (bytesToHex pubKey)))"

text \<open>
  \<open>function computeSharedSecret(privateKey: Hex, publicKey: Hex): Hex {
     const sharedSecret = secp256k1.getSharedSecret(hexToBytes(privateKey), hexToBytes(publicKey), true);
     return bytesToHex(sharedSecret); }\<close>
\<close>

definition computeSharedSecret :: "'p library \<Rightarrow> Hex \<Rightarrow> Hex \<Rightarrow> error + Hex" where
  "computeSharedSecret L privateKey publicKey =
     andThen (hexToBytes privateKey) (\<lambda>sk.
     andThen (hexToBytes publicKey) (\<lambda>pk.
     andThen (secp_getSharedSecret L sk pk True) (\<lambda>sharedSecret.
       Inr (bytesToHex sharedSecret))))"

text \<open>
  The object types of the scripts. A JavaScript \<open>number\<close> that holds a byte, or
  \<open>undefined\<close> (an array read out of range), is an \<open>int option\<close>.
\<close>

record metaAddress =
  spendingPubKey :: Hex
  viewingPubKey :: Hex

record recipientKeys = metaAddress +
  spendingPrivKey :: Hex
  viewingPrivKey :: Hex

record announced =
  stealthAddress :: Hex
  ephemeralPubKey :: Hex

record announcement = announced +
  viewTag :: "int option"

record announcementData = announcement +
  ciphertext :: string

text \<open>\<open>bytes[0]\<close>: \<open>undefined\<close> on an empty array.\<close>

definition at0 :: "byte list \<Rightarrow> int option" where
  "at0 bs = (case bs of [] \<Rightarrow> None | b # _ \<Rightarrow> Some (uint b))"

text \<open>\<open>s.slice(-40)\<close>: the last 40 characters, the whole string when it is shorter.\<close>

definition sliceLast :: "nat \<Rightarrow> string \<Rightarrow> string" where
  "sliceLast k s = drop (length s - k) s"

text \<open>
  \<open>generateStealthAddress(recipientMetaAddress)\<close>, the sender. The random bytes of the
  ephemeral key are an argument; the \<open>console.log\<close> lines, which do not enter the
  returned object, are left out. Each \<open>andThen\<close> is a library call that may throw.
\<close>

definition generateStealthAddress ::
  "'p library \<Rightarrow> byte list \<Rightarrow> metaAddress \<Rightarrow> error + announcementData" where
  "generateStealthAddress L randomValues recipientMetaAddress =
     (let ephemeralPrivKey = generatePrivateKey randomValues in
      andThen (getPublicKey L ephemeralPrivKey) (\<lambda>ephemeralPubKey.
      andThen (computeSharedSecret L ephemeralPrivKey (viewingPubKey recipientMetaAddress)) (\<lambda>sharedSecret.
      andThen (hexToBytes sharedSecret) (\<lambda>sharedSecretBytes.
      let hashedSharedSecret = keccak256 L sharedSecretBytes in
      andThen (hexToBytes hashedSharedSecret) (\<lambda>hashedBytes.
      let viewTag = at0 hashedBytes in
      andThen (hexToBytes hashedSharedSecret) (\<lambda>s_scalar.
      let p_spending_hex = drop 2 (spendingPubKey recipientMetaAddress) in
      andThen (secp_fromHex L p_spending_hex) (\<lambda>p_spending_point.
      andThen (secp_getPublicKey L s_scalar True) (\<lambda>s_G_pubKey.
      let s_G_hex = drop 2 (bytesToHex s_G_pubKey) in
      andThen (secp_fromHex L s_G_hex) (\<lambda>s_G_point.
      let p_stealth_point = pointAdd L p_spending_point s_G_point in
      andThen (secp_toHex L p_stealth_point True) (\<lambda>stealthPubKey.
      andThen (secp_toHex L p_stealth_point False) (\<lambda>uncompressedPubKey.
      andThen (hexToBytes (''0x'' @ uncompressedPubKey)) (\<lambda>uncompressedBytes.
      let pubKeyBytes = drop 1 uncompressedBytes;
          addressHash = keccak256 L pubKeyBytes;
          stealthAddress = ''0x'' @ sliceLast 40 addressHash
      in Inr \<lparr> stealthAddress = stealthAddress,
                ephemeralPubKey = ephemeralPubKey,
                viewTag = viewTag,
                ciphertext = ''0x...'' \<rparr>))))))))))))"

text \<open>
  The recipient's scalar addition, \<open>const d_stealth_big = (d_spending + s_scalar) % CURVE_ORDER\<close>
  in every \<open>scanAndRecover\<close>.
\<close>

definition d_stealth_big :: "int \<Rightarrow> int \<Rightarrow> int" where
  "d_stealth_big d_spending s_scalar = bigint_rem (d_spending + s_scalar) CURVE_ORDER"

text \<open>
  \<open>scanAndRecover\<close> returns nothing: what it finds it prints. Its result here is the
  list of the lines it wrote to the console, each with the arguments of the call, and
  how the call ended: with the value it returned, or with the exception a library call
  threw.
\<close>

datatype jsval =
    Str string
  | Num int
  | Undefined
  | NaN
  | Template "jsval list"   \<comment> \<open>a template literal: its text pieces and interpolated values, in order\<close>

datatype line = ConsoleLog "jsval list" | ConsoleError "jsval list"

datatype completion = Returned jsval | Threw error

definition numOrUndefined :: "int option \<Rightarrow> jsval" where
  "numOrUndefined v = (case v of None \<Rightarrow> Undefined | Some n \<Rightarrow> Num n)"

text \<open>
  The first step of the scanner, up to the view tag: the shared secret, its hash and
  the first byte of the hash.
\<close>

definition calculateViewTag :: "'p library \<Rightarrow> Hex \<Rightarrow> Hex \<Rightarrow> error + Hex \<times> int option" where
  "calculateViewTag L viewingKey ephemeralKey =
     andThen (computeSharedSecret L viewingKey ephemeralKey) (\<lambda>sharedSecret.
     andThen (hexToBytes sharedSecret) (\<lambda>sharedSecretBytes.
     let hashedSharedSecret = keccak256 L sharedSecretBytes in
     andThen (hexToBytes hashedSharedSecret) (\<lambda>hashedBytes.
     let calculatedViewTag = at0 hashedBytes in
       Inr (hashedSharedSecret, calculatedViewTag))))"

text \<open>The second step: the stealth private key, as the scripts print it.\<close>

definition deriveStealthPrivateKey :: "Hex \<Rightarrow> Hex \<Rightarrow> error + Hex" where
  "deriveStealthPrivateKey hashedSharedSecret spendingKey =
     andThen (BigInt hashedSharedSecret) (\<lambda>s_scalar.
     andThen (BigInt spendingKey) (\<lambda>d_spending.
     let d_stealth = ''0x'' @ padStart 64 (CHR ''0'') (toString16 (d_stealth_big d_spending s_scalar))
     in Inr d_stealth))"

definition scanAndRecover ::
  "'p library \<Rightarrow> announcement \<Rightarrow> recipientKeys \<Rightarrow> line list \<times> completion" where
  "scanAndRecover L announcement recipientKeys =
     (let out1 = [ConsoleLog [Str ''\<newline>--- Recipient: Scanning & Recovering ---'']] in
      case calculateViewTag L (viewingPrivKey recipientKeys) (ephemeralPubKey announcement) of
        Inl e \<Rightarrow> (out1, Threw e)
      | Inr (hashedSharedSecret, calculatedViewTag) \<Rightarrow>
      let out2 = out1 @ [ConsoleLog [Str ''Calculated View Tag:'', numOrUndefined calculatedViewTag]] in
      if calculatedViewTag \<noteq> viewTag announcement then
        (out2 @ [ConsoleLog [Str ''View Tag Mismatch! Not for us.'']], Returned Undefined)
      else
      let out3 = out2 @ [ConsoleLog [Str ''View Tag Match! Proceeding to recover...'']] in
      case deriveStealthPrivateKey hashedSharedSecret (spendingPrivKey recipientKeys) of
        Inl e \<Rightarrow> (out3, Threw e)
      | Inr d_stealth \<Rightarrow>
      let out4 = out3 @ [ConsoleLog [Str ''Derived Stealth Private Key:'', Str d_stealth]] in
      case privateKeyToAddress L d_stealth of
        Inl e \<Rightarrow> (out4, Threw e)
      | Inr derivedAddress \<Rightarrow>
      let out5 = out4 @ [ConsoleLog [Str ''Derived Stealth Address:'', Str derivedAddress]] in
      if toLowerCase derivedAddress = toLowerCase (stealthAddress announcement) then
        (out5 @ [ConsoleLog [Str ''SUCCESS: Stealth Address Verified and Private Key Recovered!'']],
         Returned Undefined)
      else
        (out5 @ [ConsoleError [Str ''FAILURE: Derived address does not match announcement.'']],
         Returned Undefined))"

text \<open>
  An observation on a run of the scanner: it took the branch of the view-tag mismatch,
  the only place where that line is printed.
\<close>

definition viewTagRejected :: "line list \<times> completion \<Rightarrow> bool" where
  "viewTagRejected r \<longleftrightarrow> ConsoleLog [Str ''View Tag Mismatch! Not for us.''] \<in> set (fst r)"

section \<open>The first script of \<open>src/unnamed/part_001\<close> (the draft on viem's \<open>secp256k1\<close>)\<close>

text \<open>
  \<open>function computeSharedSecret(privateKey: Hex, publicKey: Hex): Hex {
     const sharedPoint = secp256k1.getSharedSecret(hexToBytes(privateKey), hexToBytes(publicKey));
     const sharedPointBytes = sharedPoint.slice(1, 33);
     return keccak256(sharedPoint); }\<close>

  Here the function already returns the hash of the shared point (compressed: the
  default of noble-curves' \<open>getSharedSecret\<close>); \<open>sharedPointBytes\<close> is not used.
\<close>

definition computeSharedSecret_draft :: "'p library \<Rightarrow> Hex \<Rightarrow> Hex \<Rightarrow> error + Hex" where
  "computeSharedSecret_draft L privateKey publicKey =
     andThen (hexToBytes privateKey) (\<lambda>sk.
     andThen (hexToBytes publicKey) (\<lambda>pk.
     andThen (secp_getSharedSecret L sk pk True) (\<lambda>sharedPoint.
       Inr (keccak256 L sharedPoint))))"

text \<open>
  \<open>generateStealthAddress\<close> of the draft, lines 72 to 112, down to
  \<open>const stealthPubKey = p_stealth_point.toHex(true)\<close>. The result is the ephemeral public
  key, the view tag and the stealth public key. (The lines after it, which format the
  address, apply \<open>bytesToHex\<close> to a string; no property below is about them.)
\<close>

definition generateStealthAddress_draft ::
  "'p library \<Rightarrow> byte list \<Rightarrow> metaAddress \<Rightarrow> error + (Hex \<times> int option \<times> string)" where
  "generateStealthAddress_draft L randomValues recipientMetaAddress =
     (let ephemeralPrivKey = generatePrivateKey randomValues in
      andThen (getPublicKey L ephemeralPrivKey) (\<lambda>ephemeralPubKey.
      andThen (computeSharedSecret_draft L ephemeralPrivKey (viewingPubKey recipientMetaAddress)) (\<lambda>sharedSecret.
      andThen (hexToBytes sharedSecret) (\<lambda>sharedSecretBytes.
      let viewTag = at0 sharedSecretBytes in
      andThen (hexToBytes sharedSecret) (\<lambda>concatenated.
      let hashedSharedSecret = keccak256 L concatenated in
      andThen (hexToBytes sharedSecret) (\<lambda>scalar.
      andThen (hexToBytes sharedSecret) (\<lambda>toHash.
      let s_scalar = keccak256 L toHash in
      andThen (hexToBytes (spendingPubKey recipientMetaAddress)) (\<lambda>spendingBytes.
      andThen (decodePoint L spendingBytes) (\<lambda>p_spending_point.
      andThen (hexToBytes s_scalar) (\<lambda>s_scalar_bytes.
      andThen (secp_fromPrivateKey L s_scalar_bytes) (\<lambda>s_G_point.
      let p_stealth_point = pointAdd L p_spending_point s_G_point in
      andThen (secp_toHex L p_stealth_point True) (\<lambda>stealthPubKey.
        Inr (ephemeralPubKey, viewTag, stealthPubKey)))))))))))))"

section \<open>The second script of \<open>src/unnamed/part_001\<close> (mock registry and announcer)\<close>

text \<open>
  \<open>interface Announcement { schemeId: number; stealthAddress: Hex; caller: Hex;
     ephemeralPubKey: Hex; metadata: Hex; }\<close>
\<close>

record Announcement = announced +
  schemeId :: int
  caller :: Hex
  metadata :: Hex

text \<open>
  The meta-address string the script builds (lines 299 and 464):
  \<open>`st:eth:0x${spendingPubKey.slice(2)}${viewingPubKey.slice(2)}`\<close>.
\<close>

definition metaAddressString :: "metaAddress \<Rightarrow> string" where
  "metaAddressString recipientMetaAddress =
     ''st:eth:0x'' @ drop 2 (spendingPubKey recipientMetaAddress)
                  @ drop 2 (viewingPubKey recipientMetaAddress)"

text \<open>
  The one in \<open>src/unnamed/part_000\<close> (lines 133 and 281) and \<open>part_002\<close>:
  \<open>`st:eth:${spendingPubKey}:${viewingPubKey}`\<close>.
\<close>

definition metaAddressString_colon :: "metaAddress \<Rightarrow> string" where
  "metaAddressString_colon recipientMetaAddress =
     ''st:eth:'' @ spendingPubKey recipientMetaAddress @ '':'' @ viewingPubKey recipientMetaAddress"

text \<open>
  \<open>parseInt(s, 16)\<close>: leading white space, a sign, an optional \<open>0x\<close> or \<open>0X\<close>, then the
  longest run of hex digits; \<open>NaN\<close> (here \<open>None\<close>) when that run is empty.
\<close>

definition parseInt16 :: "string \<Rightarrow> int option" where
  "parseInt16 s =
     (let t = dropWhile isWhiteSpace s;
          sign = (if take 1 t = ''-'' then - 1 else 1 :: int);
          t = (if take 1 t = ''-'' \<or> take 1 t = ''+'' then drop 1 t else t);
          t = (if take 2 t = ''0x'' \<or> take 2 t = ''0X'' then drop 2 t else t);
          z = takeWhile (\<lambda>c. charCodeToBase16 c \<noteq> None) t
      in if z = [] then None
         else (case hexValue 0 z of None \<Rightarrow> None | Some v \<Rightarrow> Some (sign * int v)))"

definition numOrNaN :: "int option \<Rightarrow> jsval" where
  "numOrNaN v = (case v of None \<Rightarrow> NaN | Some n \<Rightarrow> Num n)"

text \<open>
  The check mark of line 418, as the bytes the file holds for it.
\<close>

definition checkMark :: string where
  "checkMark = map char_of [0xC3, 0xA2, 0xC5, 0x93, 0xE2, 0x80, 0x9C :: nat]"

text \<open>
  \<open>async function scanAndRecover(announcement: Announcement, recipientKeys)\<close>, lines 377
  to 448. The \<open>await sleep(...)\<close> calls only wait and are left out. \<open>schemeId\<close> is read
  once, to print it.
\<close>

definition scanAndRecover_announcer ::
  "'p library \<Rightarrow> Announcement \<Rightarrow> recipientKeys \<Rightarrow> line list \<times> completion" where
  "scanAndRecover_announcer L announcement recipientKeys =
     (let out1 =
            [ConsoleLog [Str ''\<newline>\<newline>==================================================================================''],
             ConsoleLog [Str ''                           RECIPIENT SIDE (Scanning & Recovering)                  ''],
             ConsoleLog [Str ''=================================================================================='']];
          viewTagFromMetadata = parseInt16 (take 2 (drop 2 (metadata announcement)));
          out2 = out1 @
            [ConsoleLog [Str ''Recipient sees an Announcement event on-chain from ERC5564Announcer:''],
             ConsoleLog [Template [Str ''   [Public] schemeId:        '', Num (schemeId announcement)]],
             ConsoleLog [Template [Str ''   [Public] Ephemeral PubKey: '', Str (ephemeralPubKey announcement)]],
             ConsoleLog [Template [Str ''   [Public] Stealth Address: '', Str (stealthAddress announcement)]],
             ConsoleLog [Template [Str ''   [Public] Metadata:        '', Str (metadata announcement)]],
             ConsoleLog [Template [Str ''   [Parsed] View Tag (byte 0): '', numOrNaN viewTagFromMetadata]],
             ConsoleLog [Str ''\<newline>   [CLARIFICATION] Does Recipient scan every transaction?''],
             ConsoleLog [Str ''   YES. The Recipient performs ECDH on EVERY announcement to check the View Tag.''],
             ConsoleLog [Str (''   - If View Tag doesn'' @ [CHR 0x27] @ ''t match: STOP (Saves 99.6% of work).'')],
             ConsoleLog [Str ''   - If View Tag matches: Proceed to full address derivation (The expensive part).''],
             ConsoleLog [Str (''\<newline>1. Recipient checks '' @ [CHR 0x27] @ ''View Tag'' @ [CHR 0x27] @ '' to see if this is for them:'')],
             ConsoleLog [Str ''   Formula: Recipient_Viewing_PrivKey * Ephemeral_PubKey'']]
      in
      case computeSharedSecret L (viewingPrivKey recipientKeys) (ephemeralPubKey announcement) of
        Inl e \<Rightarrow> (out2, Threw e)
      | Inr sharedSecret \<Rightarrow>
      let out3 = out2 @ [ConsoleLog [Template [Str ''   Re-computed Shared Secret (S): '', Str sharedSecret]]] in
      case andThen (hexToBytes sharedSecret) (\<lambda>sharedSecretBytes.
           let hashedSharedSecret = keccak256 L sharedSecretBytes in
           andThen (hexToBytes hashedSharedSecret) (\<lambda>hashedBytes.
             Inr (hashedSharedSecret, at0 hashedBytes))) of
        Inl e \<Rightarrow> (out3, Threw e)
      | Inr (hashedSharedSecret, calculatedViewTag) \<Rightarrow>
      let out4 = out3 @ [ConsoleLog [Template [Str ''   Calculated View Tag: '', numOrUndefined calculatedViewTag]]] in
      if viewTagFromMetadata = None \<or> calculatedViewTag \<noteq> viewTagFromMetadata then
        (out4 @ [ConsoleLog [Str ''   [X] View Tag Mismatch! Ignoring transaction.'']], Returned Undefined)
      else
      let out5 = out4 @
            [ConsoleLog [Str (''   ['' @ checkMark @ ''] View Tag Match! This transaction is for us.'')],
             ConsoleLog [Str (''\<newline>2. Recipient derives the '' @ [CHR 0x27] @ ''Stealth Private Key'' @ [CHR 0x27] @ '' to spend funds:'')],
             ConsoleLog [Str ''   Formula: Recipient_Spending_PrivKey + Hashed_Secret (mod curve order)'']] in
      case deriveStealthPrivateKey hashedSharedSecret (spendingPrivKey recipientKeys) of
        Inl e \<Rightarrow> (out5, Threw e)
      | Inr d_stealth \<Rightarrow>
      let out6 = out5 @
            [ConsoleLog [Template [Str ''   Recipient Spending PrivKey: '', Str (spendingPrivKey recipientKeys)]],
             ConsoleLog [Template [Str ''   Hashed Secret (scalar):     '', Str hashedSharedSecret]],
             ConsoleLog [Template [Str ''   ------------------------------------------------------------------'']],
             ConsoleLog [Template [Str ''   Stealth Private Key:        '', Str d_stealth, Str '' (THE KEY TO THE FUNDS)'']]] in
      case privateKeyToAddress L d_stealth of
        Inl e \<Rightarrow> (out6, Threw e)
      | Inr derivedAddress \<Rightarrow>
      let out7 = out6 @
            [ConsoleLog [Str ''\<newline>3. Verification:''],
             ConsoleLog [Template [Str ''   Derived Address from Key:   '', Str derivedAddress]],
             ConsoleLog [Template [Str ''   Actual Stealth Address:     '', Str (stealthAddress announcement)]]] in
      if toLowerCase derivedAddress = toLowerCase (stealthAddress announcement) then
        (out7 @ [ConsoleLog [Str ''\<newline>   [SUCCESS] The derived key controls the stealth address!'']],
         Returned Undefined)
      else
        (out7 @ [ConsoleError [Str ''\<newline>   [FAILURE] Something went wrong.'']],
         Returned Undefined))"

section \<open>A small instance of the libraries\<close>

text \<open>
  An instance of \<open>library_ok\<close> to run the definitions on: the integers modulo
  \<open>CURVE_ORDER\<close> under addition, generated by 1, so that \<open>k\<cdot>G\<close> is \<open>k mod CURVE_ORDER\<close>.
  A point is encoded as the byte 2 (compressed) or 4 (uncompressed) followed by its
  value in 32 bytes, big-endian (twice when uncompressed). As in noble 1.x, the
  encoding does not refuse \<open>ZERO\<close>. The digest of a byte string is its big-endian value
  plus 7, in 32 bytes.
\<close>

primrec numberToBytesBE :: "nat \<Rightarrow> nat \<Rightarrow> byte list" where
  "numberToBytesBE 0 n = []"
| "numberToBytesBE (Suc len) n = numberToBytesBE len (n div 256) @ [of_nat (n mod 256)]"

definition toyLibrary :: "nat library" where
  "toyLibrary =
     \<lparr> ZERO = 0,
       BASE = 1,
       onCurve = (\<lambda>p. p < nat CURVE_ORDER),
       pointAdd = (\<lambda>a b. (a + b) mod nat CURVE_ORDER),
       toRawBytes = (\<lambda>p isCompressed.
          Some (if isCompressed then 2 # numberToBytesBE 32 p
                else 4 # numberToBytesBE 32 p @ numberToBytesBE 32 p)),
       fromBytes = (\<lambda>bs.
          case bs of
            [] \<Rightarrow> None
          | prefix # x \<Rightarrow>
              if prefix = 2 \<and> length x = 32 \<and> 0 < bytesToNumber x \<and> bytesToNumber x < nat CURVE_ORDER
              then Some (bytesToNumber x) else None),
       keccak_256 = (\<lambda>bs. numberToBytesBE 32 ((bytesToNumber bs + 7) mod 2 ^ 256)) \<rparr>"

text \<open>The same instance with an encoding that throws on \<open>ZERO\<close>, as later versions of noble do.\<close>

definition toyLibraryStrict :: "nat library" where
  "toyLibraryStrict =
     toyLibrary \<lparr> toRawBytes := (\<lambda>p isCompressed.
        if p = 0 then None else toRawBytes toyLibrary p isCompressed) \<rparr>"

section \<open>Hex strings and numbers: round trips\<close>

lemma hexDigit_cases:
  assumes "d < 16"
  shows "d \<in> {0,1,2,3,4,5,6,7,8,9,10,11,12,13,14,15::nat}"
proof -
  show ?thesis using assms by simp arith
qed

lemma hi_nibble_less: "unat (b::byte) div 16 < 16"
proof -
  have "unat b < 256" using unsigned_less [of b, where ?'a = nat] by simp
  then show ?thesis by arith
qed

lemma charCodeToBase16_hexDigit: "d < 16 \<Longrightarrow> charCodeToBase16 (hexDigit d) = Some d"
  using hexDigit_cases [of d] by (auto simp: hexDigit_def charCodeToBase16_def)

lemma charCodeToBase16_less: "charCodeToBase16 c = Some d \<Longrightarrow> d < 16"
  by (auto simp: charCodeToBase16_def Let_def split: if_splits)

lemma byte_nibbles: "(of_nat (unat b div 16 * 16 + unat b mod 16) :: byte) = b"
  by simp

lemma hexPairs_hexes: "hexPairs (concat (map hexes bs)) = Inr bs"
  by (induction bs) (simp_all add: hexes_def charCodeToBase16_hexDigit hi_nibble_less)

lemma length_hexes: "length (concat (map hexes bs)) = 2 * length bs"
  by (induction bs) (simp_all add: hexes_def)

lemma hexToBytes_bytesToHex: "hexToBytes (bytesToHex bs) = Inr bs"
  by (simp add: hexToBytes_def bytesToHex_def length_hexes hexPairs_hexes)

lemma hexValue_hexes:
  "hexValue acc (concat (map hexes bs)) = Some (foldl (\<lambda>acc b. acc * 256 + unat b) acc bs)"
proof (induction bs arbitrary: acc)
  case Nil
  then show ?case by simp
next
  case (Cons b bs)
  have eq: "(acc * 16 + unat b div 16) * 16 + unat b mod 16 = acc * 256 + unat b"
    by arith
  have "hexValue acc (concat (map hexes (b # bs))) =
          hexValue ((acc * 16 + unat b div 16) * 16 + unat b mod 16) (concat (map hexes bs))"
    by (simp add: hexes_def charCodeToBase16_hexDigit hi_nibble_less del: mult_Suc_right)
  then show ?case
    unfolding eq Cons.IH by simp
qed

lemma hexDigit_not_space: "\<not> isWhiteSpace (hexDigit d)"
proof -
  have "d mod 16 < 16" by simp
  from hexDigit_cases [OF this] show ?thesis
    by (auto simp: hexDigit_def isWhiteSpace_def)
qed

lemma hexes_not_Nil [simp]: "hexes b \<noteq> []"
  by (simp add: hexes_def)

lemma trimEnd_id: "s \<noteq> [] \<Longrightarrow> \<not> isWhiteSpace (last s) \<Longrightarrow> trimEnd s = s"
  by (cases s rule: rev_cases) (simp_all add: trimEnd_def)

lemma last_hexes: "bs \<noteq> [] \<Longrightarrow> last (concat (map hexes bs)) = hexDigit (unat (last bs) mod 16)"
  by (induction bs) (auto simp: hexes_def)

lemma concat_hexes_Nil: "concat (map hexes bs) = [] \<longleftrightarrow> bs = []"
  by (cases bs) (simp_all add: hexes_def)

lemma trimEnd_bytesToHex: "trimEnd (bytesToHex bs) = bytesToHex bs"
proof (cases "bs = []")
  case True
  then show ?thesis by (simp add: bytesToHex_def trimEnd_def isWhiteSpace_def)
next
  case False
  then have "last (bytesToHex bs) = hexDigit (unat (last bs) mod 16)"
    by (simp add: bytesToHex_def last_hexes concat_hexes_Nil)
  then show ?thesis
    by (intro trimEnd_id) (simp_all add: hexDigit_not_space bytesToHex_def)
qed

lemma BigInt_bytesToHex:
  "bs \<noteq> [] \<Longrightarrow> BigInt (bytesToHex bs) = Inr (int (bytesToNumber bs))"
  unfolding BigInt_def trimEnd_bytesToHex
  by (simp add: bytesToHex_def hexValue_hexes bytesToNumber_def concat_hexes_Nil)

lemma BigInt_0x: "BigInt ''0x'' = Inl SyntaxError"
  by (simp add: BigInt_def trimEnd_def isWhiteSpace_def)

lemma bigint_rem_nonneg: "0 \<le> a \<Longrightarrow> 0 < b \<Longrightarrow> bigint_rem a b = a mod b"
  by (cases "a = 0") (simp_all add: bigint_rem_def)

lemma CURVE_ORDER_pos: "0 < CURVE_ORDER"
  by (simp add: CURVE_ORDER_def)

lemma hexPairs_hexValue:
  "hexPairs t = Inr bs \<Longrightarrow> hexValue acc t = Some (foldl (\<lambda>acc b. acc * 256 + unat b) acc bs)"
proof (induction t arbitrary: bs acc rule: hexPairs.induct)
  case 1
  then show ?case by simp
next
  case (2 c)
  then show ?case by simp
next
  case (3 l r rest)
  from "3.prems" obtain nl nr bs' where
    l: "charCodeToBase16 l = Some nl" and r: "charCodeToBase16 r = Some nr"
    and rest: "hexPairs rest = Inr bs'" and bs: "bs = of_nat (nl * 16 + nr) # bs'"
    by (auto split: option.splits sum.splits)
  define b :: byte where "b = of_nat (nl * 16 + nr)"
  have "nl < 16" "nr < 16" using l r by (auto dest: charCodeToBase16_less)
  then have "nl * 16 + nr < 256" by simp
  then have u: "unat b = nl * 16 + nr"
    unfolding b_def by (simp only: unat_of_nat) simp
  have eq: "(acc * 16 + nl) * 16 + nr = acc * 256 + unat b" unfolding u by simp
  have "hexValue acc (l # r # rest) = hexValue ((acc * 16 + nl) * 16 + nr) rest"
    using l r by simp
  also have "\<dots> = Some (foldl (\<lambda>acc b. acc * 256 + unat b) ((acc * 16 + nl) * 16 + nr) bs')"
    using "3.IH" [OF refl l r rest] by simp
  also have "\<dots> = Some (foldl (\<lambda>acc b. acc * 256 + unat b) acc (b # bs'))"
    unfolding eq by simp
  finally show ?case unfolding bs b_def .
qed

lemma hexPairs_all_hex:
  "hexPairs t = Inr bs \<Longrightarrow> c \<in> set t \<Longrightarrow> charCodeToBase16 c \<noteq> None"
proof (induction t arbitrary: bs rule: hexPairs.induct)
  case 1
  then show ?case by simp
next
  case (2 c)
  then show ?case by simp
next
  case (3 l r rest)
  then show ?case by (auto split: option.splits sum.splits)
qed

lemma hexPairs_length: "hexPairs t = Inr bs \<Longrightarrow> length t = 2 * length bs"
proof (induction t arbitrary: bs rule: hexPairs.induct)
  case 1
  then show ?case by simp
next
  case (2 c)
  then show ?case by simp
next
  case (3 l r rest)
  then show ?case by (auto split: option.splits sum.splits)
qed

lemma hex_not_space: "charCodeToBase16 c \<noteq> None \<Longrightarrow> \<not> isWhiteSpace c"
  by (auto simp: charCodeToBase16_def isWhiteSpace_def Let_def split: if_splits)

lemma hexValue_zero_digit: "hexValue 0 (CHR ''0'' # h) = hexValue 0 h"
  by (simp add: charCodeToBase16_def)

text \<open>For a string of type Hex, hexToBytes and BigInt read the same number.\<close>

lemma BigInt_hexToBytes:
  assumes hex: "take 2 s = ''0x''" and bytes: "hexToBytes s = Inr bs" and ne: "bs \<noteq> []"
  shows "BigInt s = Inr (int (bytesToNumber bs))"
proof -
  define h where "h = drop 2 s"
  define h' where "h' = (if odd (length h) then CHR ''0'' # h else h)"
  have s: "s = ''0x'' @ h" using hex append_take_drop_id [of 2 s] by (simp add: h_def)
  have pairs: "hexPairs h' = Inr bs"
    using bytes unfolding hexToBytes_def Let_def h'_def h_def .
  have hne: "h \<noteq> []" using pairs ne by (auto simp: h'_def)
  have "hexValue 0 h' = Some (bytesToNumber bs)"
    using hexPairs_hexValue [OF pairs, of 0] by (simp add: bytesToNumber_def)
  then have val: "hexValue 0 h = Some (bytesToNumber bs)"
    by (simp add: h'_def hexValue_zero_digit del: hexValue.simps split: if_splits)
  have "last h \<in> set h'" using hne by (simp add: h'_def)
  then have "\<not> isWhiteSpace (last h)"
    using hexPairs_all_hex [OF pairs] hex_not_space by blast
  then have "\<not> isWhiteSpace (last s)" using hne by (simp add: s)
  then have "trimEnd s = s" by (intro trimEnd_id) (simp_all add: s)
  then show ?thesis using hne val by (simp add: BigInt_def s)
qed

subsection \<open>toString(16) and padStart\<close>

lemma digits16_small: "n < 16 \<Longrightarrow> digits16 n = [hexDigit n]"
  by (subst digits16.simps) simp

lemma digits16_big: "\<not> n < 16 \<Longrightarrow> digits16 n = digits16 (n div 16) @ [hexDigit (n mod 16)]"
  by (subst digits16.simps) simp

lemma hexValue_append:
  "hexValue acc (xs @ ys) = (case hexValue acc xs of None \<Rightarrow> None | Some v \<Rightarrow> hexValue v ys)"
  by (induction xs arbitrary: acc) (simp_all split: option.splits)

lemma hexValue_digits16: "hexValue acc (digits16 n) = Some (acc * 16 ^ length (digits16 n) + n)"
proof (induction n arbitrary: acc rule: digits16.induct)
  case (1 n)
  show ?case
  proof (cases "n < 16")
    case True
    then show ?thesis by (simp add: digits16_small charCodeToBase16_hexDigit)
  next
    case False
    have "n mod 16 < 16" by simp
    then have d: "charCodeToBase16 (hexDigit (n mod 16)) = Some (n mod 16)"
      by (rule charCodeToBase16_hexDigit)
    have "(acc * 16 ^ length (digits16 (n div 16)) + n div 16) * 16 + n mod 16 =
          acc * 16 ^ Suc (length (digits16 (n div 16))) + n"
      by (simp add: algebra_simps)
    then show ?thesis
      using False d "1.IH" [OF False] by (simp add: digits16_big hexValue_append)
  qed
qed

lemma length_digits16: "0 < k \<Longrightarrow> n < 16 ^ k \<Longrightarrow> length (digits16 n) \<le> k"
proof (induction n arbitrary: k rule: digits16.induct)
  case (1 n)
  show ?case
  proof (cases "n < 16")
    case True
    then show ?thesis using "1.prems" by (simp add: digits16_small)
  next
    case False
    with "1.prems" obtain j where k: "k = Suc j" by (cases k) auto
    have "0 < j" using False "1.prems" k by (cases j) auto
    moreover have "n div 16 < 16 ^ j" using "1.prems" k by (simp add: less_mult_imp_div_less mult.commute)
    ultimately have "length (digits16 (n div 16)) \<le> j" using "1.IH" [OF False] by simp
    then show ?thesis using False k by (simp add: digits16_big)
  qed
qed

lemma hexValue_zeros: "hexValue 0 (replicate k (CHR ''0'') @ s) = hexValue 0 s"
  by (induction k) (simp_all add: charCodeToBase16_def)

lemma hexPairs_total:
  "even (length t) \<Longrightarrow> hexValue acc t = Some v \<Longrightarrow> \<exists>bs. hexPairs t = Inr bs"
proof (induction t arbitrary: acc rule: hexPairs.induct)
  case 1
  then show ?case by simp
next
  case (2 c)
  then show ?case by simp
next
  case (3 l r rest)
  from "3.prems"(2) obtain nl where l: "charCodeToBase16 l = Some nl"
    by (auto split: option.splits)
  with "3.prems"(2) obtain nr where r: "charCodeToBase16 r = Some nr"
    by (auto split: option.splits)
  have v: "hexValue ((acc * 16 + nl) * 16 + nr) rest = Some v"
    using "3.prems"(2) l r by simp
  have "even (length rest)" using "3.prems"(1) by simp
  from "3.IH" [OF refl l r this v] obtain bs where "hexPairs rest = Inr bs" by auto
  then show ?case using l r by simp
qed

text \<open>The 64 hex digits of the stealth private key read back as 32 bytes with the same value.\<close>

lemma hexPairs_padStart:
  assumes "n < 2 ^ 256"
  shows "\<exists>bs. hexPairs (padStart 64 (CHR ''0'') (digits16 n)) = Inr bs \<and> length bs = 32 \<and> bytesToNumber bs = n"
proof -
  define t where "t = padStart 64 (CHR ''0'') (digits16 n)"
  have "n < 16 ^ 64" using assms by simp
  then have len: "length (digits16 n) \<le> 64" by (intro length_digits16) simp_all
  then have lt: "length t = 64" by (simp add: t_def padStart_def)
  have val: "hexValue 0 t = Some n"
    by (simp add: t_def padStart_def hexValue_zeros hexValue_digits16)
  from hexPairs_total [OF _ val] lt obtain bs where bs: "hexPairs t = Inr bs" by auto
  have "length bs = 32" using hexPairs_length [OF bs] lt by simp
  moreover have "bytesToNumber bs = n"
    using hexPairs_hexValue [OF bs, of 0] val by (simp add: bytesToNumber_def)
  ultimately show ?thesis using bs unfolding t_def by blast
qed

subsection \<open>Checksum addresses differ from their input in case only\<close>

lemma toLower_toUpper: "toLowerChar (toUpperChar c) = toLowerChar c"
  by (auto simp: toLowerChar_def toUpperChar_def Let_def)

lemma toLower_idem: "toLowerChar (toLowerChar c) = toLowerChar c"
  by (auto simp: toLowerChar_def Let_def)

lemma map_snd_zip_upt: "map snd (zip [0..<length xs] xs) = xs"
  by (simp add: map_snd_zip)

lemma toLowerCase_checksumAddress:
  "toLowerCase (checksumAddress L a) = ''0x'' @ toLowerCase (drop 2 a)"
proof -
  define h where "h = toLowerCase (drop 2 a)"
  define hash where "hash = nibbles (keccak_256 L (stringToBytes h))"
  have "map toLowerChar (map (\<lambda>(i, c). if i < 40 \<and> i < length hash \<and> 8 \<le> hash ! i
                                 then toUpperChar c else c) (zip [0..<length h] h))
        = map (toLowerChar \<circ> snd) (zip [0..<length h] h)"
    by (auto simp: toLower_toUpper)
  also have "\<dots> = map toLowerChar h"
    using map_snd_zip_upt [of h] by (metis map_map)
  also have "\<dots> = h" by (simp add: h_def toLowerCase_def toLower_idem)
  finally show ?thesis
    by (simp add: checksumAddress_def Let_def toLowerCase_def toLowerChar_def h_def [symmetric, unfolded toLowerCase_def]
        hash_def [symmetric, unfolded toLowerCase_def] del: map_map) 
qed

section \<open>What the contract of the libraries gives\<close>

lemma ok_zero: "library_ok L \<Longrightarrow> onCurve L (ZERO L)"
  unfolding library_ok_def by (elim conjE) assumption

lemma ok_base: "library_ok L \<Longrightarrow> onCurve L (BASE L)"
  unfolding library_ok_def by (elim conjE) assumption

lemma ok_closed_all:
  "library_ok L \<Longrightarrow> \<forall>a b. onCurve L a \<and> onCurve L b \<longrightarrow> onCurve L (pointAdd L a b)"
  unfolding library_ok_def by (elim conjE) assumption

lemma ok_closed: "library_ok L \<Longrightarrow> onCurve L a \<Longrightarrow> onCurve L b \<Longrightarrow> onCurve L (pointAdd L a b)"
  using ok_closed_all by blast

lemma ok_assoc_all:
  "library_ok L \<Longrightarrow> \<forall>a b c. onCurve L a \<and> onCurve L b \<and> onCurve L c \<longrightarrow>
        pointAdd L (pointAdd L a b) c = pointAdd L a (pointAdd L b c)"
  unfolding library_ok_def by (elim conjE) assumption

lemma ok_assoc:
  "library_ok L \<Longrightarrow> onCurve L a \<Longrightarrow> onCurve L b \<Longrightarrow> onCurve L c \<Longrightarrow>
      pointAdd L (pointAdd L a b) c = pointAdd L a (pointAdd L b c)"
  using ok_assoc_all by blast

lemma ok_comm_all:
  "library_ok L \<Longrightarrow> \<forall>a b. onCurve L a \<and> onCurve L b \<longrightarrow> pointAdd L a b = pointAdd L b a"
  unfolding library_ok_def by (elim conjE) assumption

lemma ok_comm: "library_ok L \<Longrightarrow> onCurve L a \<Longrightarrow> onCurve L b \<Longrightarrow> pointAdd L a b = pointAdd L b a"
  using ok_comm_all by blast

lemma ok_left_zero_all: "library_ok L \<Longrightarrow> \<forall>a. onCurve L a \<longrightarrow> pointAdd L (ZERO L) a = a"
  unfolding library_ok_def by (elim conjE) assumption

lemma ok_left_zero: "library_ok L \<Longrightarrow> onCurve L a \<Longrightarrow> pointAdd L (ZERO L) a = a"
  using ok_left_zero_all by blast

lemma ok_order: "library_ok L \<Longrightarrow> nTimes L (nat CURVE_ORDER) (BASE L) = ZERO L"
  unfolding library_ok_def by (elim conjE) assumption

lemma ok_order_least_all:
  "library_ok L \<Longrightarrow> \<forall>k. 0 < k \<and> k < nat CURVE_ORDER \<longrightarrow> nTimes L k (BASE L) \<noteq> ZERO L"
  unfolding library_ok_def by (elim conjE) assumption

lemma ok_order_least:
  "library_ok L \<Longrightarrow> 0 < k \<Longrightarrow> k < nat CURVE_ORDER \<Longrightarrow> nTimes L k (BASE L) \<noteq> ZERO L"
  using ok_order_least_all by blast

lemma ok_encode_all:
  "library_ok L \<Longrightarrow> \<forall>p c. onCurve L p \<and> p \<noteq> ZERO L \<longrightarrow> toRawBytes L p c \<noteq> None"
  unfolding library_ok_def by (elim conjE) assumption

lemma ok_encode:
  "library_ok L \<Longrightarrow> onCurve L p \<Longrightarrow> p \<noteq> ZERO L \<Longrightarrow> \<exists>bs. toRawBytes L p c = Some bs"
  using ok_encode_all by blast

lemma ok_decode_all:
  "library_ok L \<Longrightarrow> \<forall>p bs. onCurve L p \<and> p \<noteq> ZERO L \<and> toRawBytes L p True = Some bs \<longrightarrow>
        fromBytes L bs = Some p"
  unfolding library_ok_def by (elim conjE) assumption

lemma ok_decode:
  "library_ok L \<Longrightarrow> onCurve L p \<Longrightarrow> p \<noteq> ZERO L \<Longrightarrow> toRawBytes L p True = Some bs \<Longrightarrow>
      fromBytes L bs = Some p"
  using ok_decode_all by blast

lemma ok_decoded_all: "library_ok L \<Longrightarrow> \<forall>bs p. fromBytes L bs = Some p \<longrightarrow> onCurve L p"
  unfolding library_ok_def by (elim conjE) assumption

lemma ok_decoded: "library_ok L \<Longrightarrow> fromBytes L bs = Some p \<Longrightarrow> onCurve L p"
  using ok_decoded_all by blast

lemma ok_digest_all: "library_ok L \<Longrightarrow> \<forall>bs. length (keccak_256 L bs) = 32"
  unfolding library_ok_def by (elim conjE) assumption

lemma ok_digest: "library_ok L \<Longrightarrow> length (keccak_256 L bs) = 32"
  using ok_digest_all by blast

lemma ok_right_zero: "library_ok L \<Longrightarrow> onCurve L a \<Longrightarrow> pointAdd L a (ZERO L) = a"
  using ok_comm [of L a "ZERO L"] ok_left_zero [of L a] ok_zero [of L] by simp

lemma onCurve_nTimes: "library_ok L \<Longrightarrow> onCurve L q \<Longrightarrow> onCurve L (nTimes L n q)"
  by (induction n) (simp_all add: ok_zero ok_closed)

lemma nTimes_add:
  assumes "library_ok L" "onCurve L q"
  shows "nTimes L (j + k) q = pointAdd L (nTimes L j q) (nTimes L k q)"
proof (induction j)
  case 0
  show ?case using assms by (simp add: ok_left_zero onCurve_nTimes)
next
  case (Suc j)
  show ?case using assms Suc by (simp add: ok_assoc onCurve_nTimes)
qed

lemma nTimes_ZERO: "library_ok L \<Longrightarrow> nTimes L n (ZERO L) = ZERO L"
  by (induction n) (simp_all add: ok_left_zero ok_zero)

lemma nTimes_mult:
  assumes "library_ok L" "onCurve L q"
  shows "nTimes L (j * k) q = nTimes L j (nTimes L k q)"
proof (induction j)
  case 0
  show ?case by simp
next
  case (Suc j)
  have "nTimes L (Suc j * k) q = nTimes L (k + j * k) q" by simp
  also have "\<dots> = pointAdd L (nTimes L k q) (nTimes L (j * k) q)"
    using assms by (rule nTimes_add)
  finally show ?case using Suc by simp
qed

lemma nTimes_commute:
  assumes "library_ok L" "onCurve L q"
  shows "nTimes L j (nTimes L k q) = nTimes L k (nTimes L j q)"
  using nTimes_mult [OF assms, of j k] nTimes_mult [OF assms, of k j]
  by (simp add: mult.commute)

lemma doubleAndAdd_nTimes:
  "library_ok L \<Longrightarrow> onCurve L p \<Longrightarrow> onCurve L d \<Longrightarrow> doubleAndAdd L p d n = pointAdd L p (nTimes L n d)"
proof (induction L p d n rule: doubleAndAdd.induct)
  case (1 L p d n)
  note ok = \<open>library_ok L\<close>
  show ?case
  proof (cases "n = 0")
    case True
    then show ?thesis using 1 ok by (simp add: doubleAndAdd.simps ok_right_zero)
  next
    case False
    let ?p' = "if odd n then pointAdd L p d else p"
    let ?d' = "pointAdd L d d"
    have p': "onCurve L ?p'" using 1 ok by (simp add: ok_closed)
    have d': "onCurve L ?d'" using 1 ok by (simp add: ok_closed)
    have dd: "?d' = nTimes L 2 d"
      using 1 ok by (simp add: numeral_2_eq_2 ok_right_zero)
    have step: "doubleAndAdd L p d n = doubleAndAdd L ?p' ?d' (n div 2)"
      using False by (subst doubleAndAdd.simps) simp
    have "doubleAndAdd L ?p' ?d' (n div 2) = pointAdd L ?p' (nTimes L (n div 2) ?d')"
      using "1.IH" [OF False ok p' d'] .
    also have "nTimes L (n div 2) ?d' = nTimes L (n div 2 * 2) d"
      unfolding dd using nTimes_mult [OF ok \<open>onCurve L d\<close>, of "n div 2" 2] by simp
    also have "pointAdd L ?p' (nTimes L (n div 2 * 2) d) = pointAdd L p (nTimes L n d)"
    proof (cases "odd n")
      case True
      then have n: "n = Suc (n div 2 * 2)" by presburger
      have "pointAdd L (pointAdd L p d) (nTimes L (n div 2 * 2) d) =
              pointAdd L p (pointAdd L d (nTimes L (n div 2 * 2) d))"
        using 1 ok by (simp add: ok_assoc onCurve_nTimes)
      also have "\<dots> = pointAdd L p (nTimes L (Suc (n div 2 * 2)) d)" by simp
      finally show ?thesis using True n by simp
    next
      case False
      then have "n div 2 * 2 = n" by presburger
      then show ?thesis using False by simp
    qed
    finally show ?thesis using step by simp
  qed
qed

lemma multiply_nTimes:
  "library_ok L \<Longrightarrow> onCurve L q \<Longrightarrow> multiply L q n = nTimes L n q"
  by (simp add: multiply_def doubleAndAdd_nTimes ok_zero ok_left_zero onCurve_nTimes)

lemma nTimes_order_mult: "library_ok L \<Longrightarrow> nTimes L (m * nat CURVE_ORDER) (BASE L) = ZERO L"
  by (simp add: nTimes_mult ok_base ok_order nTimes_ZERO)

lemma nTimes_mod_order:
  assumes "library_ok L"
  shows "nTimes L (k mod nat CURVE_ORDER) (BASE L) = nTimes L k (BASE L)"
proof -
  define N where "N = nat CURVE_ORDER"
  have base: "onCurve L (BASE L)" using assms by (rule ok_base)
  have "nTimes L (k div N * N + k mod N) (BASE L) =
      pointAdd L (nTimes L (k div N * N) (BASE L)) (nTimes L (k mod N) (BASE L))"
    using assms base by (rule nTimes_add)
  moreover have "nTimes L (k div N * N) (BASE L) = ZERO L"
    unfolding N_def using assms by (rule nTimes_order_mult)
  moreover have "onCurve L (nTimes L (k mod N) (BASE L))"
    using assms base by (rule onCurve_nTimes)
  ultimately have "nTimes L (k div N * N + k mod N) (BASE L) = nTimes L (k mod N) (BASE L)"
    using assms by (simp add: ok_left_zero)
  then show ?thesis unfolding N_def by simp
qed


section \<open>The library functions on valid keys\<close>

lemma order_less_2_256: "nat CURVE_ORDER < 2 ^ 256"
  by (simp add: CURVE_ORDER_def)

lemma order_pos: "0 < nat CURVE_ORDER"
  by (simp add: CURVE_ORDER_def)

lemma andThen_Inr [simp]: "andThen (Inr x) f = f x"
  by (simp add: andThen_def)

lemma andThen_Inl [simp]: "andThen (Inl e) f = Inl e"
  by (simp add: andThen_def)

lemma andThen_eq_Inr: "andThen m f = Inr y \<longleftrightarrow> (\<exists>x. m = Inr x \<and> f x = Inr y)"
  by (cases m) simp_all

lemma valid_key_range:
  "isValidPrivateKey sk \<Longrightarrow> 0 < bytesToNumber sk \<and> bytesToNumber sk < nat CURVE_ORDER"
  by (auto simp: isValidPrivateKey_def)

lemma valid_key_point:
  assumes "library_ok L" "isValidPrivateKey sk"
  shows "onCurve L (nTimes L (bytesToNumber sk) (BASE L))"
    and "nTimes L (bytesToNumber sk) (BASE L) \<noteq> ZERO L"
  using assms valid_key_range [of sk]
  by (simp_all add: onCurve_nTimes ok_base ok_order_least)

lemma secp_fromPrivateKey_valid:
  "library_ok L \<Longrightarrow> isValidPrivateKey sk \<Longrightarrow>
     secp_fromPrivateKey L sk = Inr (nTimes L (bytesToNumber sk) (BASE L))"
  by (simp add: secp_fromPrivateKey_def multiply_nTimes ok_base)

lemma secp_fromPrivateKey_Inr:
  "library_ok L \<Longrightarrow> secp_fromPrivateKey L sk = Inr p \<Longrightarrow>
     isValidPrivateKey sk \<and> p = nTimes L (bytesToNumber sk) (BASE L)"
  by (auto simp: secp_fromPrivateKey_def multiply_nTimes ok_base split: if_splits)

lemma encodePoint_Inr: "encodePoint L p c = Inr bs \<longleftrightarrow> toRawBytes L p c = Some bs"
  by (simp add: encodePoint_def split: option.splits)

lemma decodePoint_encoded:
  "library_ok L \<Longrightarrow> onCurve L p \<Longrightarrow> p \<noteq> ZERO L \<Longrightarrow> toRawBytes L p True = Some bs \<Longrightarrow>
     decodePoint L bs = Inr p"
  by (simp add: decodePoint_def ok_decode)

text \<open>What a successful getPublicKey says of its argument and result.\<close>

lemma getPublicKey_Inr:
  assumes "library_ok L" "getPublicKey L priv = Inr pub"
  shows "\<exists>sk bs. hexToBytes priv = Inr sk \<and> isValidPrivateKey sk \<and>
            toRawBytes L (nTimes L (bytesToNumber sk) (BASE L)) True = Some bs \<and> pub = bytesToHex bs"
proof -
  from assms(2) obtain sk pk where sk: "hexToBytes priv = Inr sk"
    and pk: "secp_getPublicKey L sk True = Inr pk" and pub: "pub = bytesToHex pk"
    by (auto simp: getPublicKey_def andThen_eq_Inr)
  from pk obtain p where p: "secp_fromPrivateKey L sk = Inr p" and enc: "encodePoint L p True = Inr pk"
    by (auto simp: secp_getPublicKey_def andThen_eq_Inr)
  from secp_fromPrivateKey_Inr [OF assms(1) p] enc sk pub show ?thesis
    by (auto simp: encodePoint_Inr)
qed

text \<open>The shared secret of a valid private key and the public key of another.\<close>

lemma computeSharedSecret_of_keys:
  assumes ok: "library_ok L"
    and a: "hexToBytes a = Inr ska" "isValidPrivateKey ska"
    and b: "isValidPrivateKey skb" "toRawBytes L (nTimes L (bytesToNumber skb) (BASE L)) True = Some pb"
  shows "computeSharedSecret L a (bytesToHex pb) =
           andThen (encodePoint L (nTimes L (bytesToNumber ska * bytesToNumber skb) (BASE L)) True)
                   (\<lambda>sharedSecret. Inr (bytesToHex sharedSecret))"
proof -
  let ?B = "nTimes L (bytesToNumber skb) (BASE L)"
  have B: "onCurve L ?B" "?B \<noteq> ZERO L" using valid_key_point [OF ok b(1)] by simp_all
  have dec: "decodePoint L pb = Inr ?B" using ok B b(2) by (rule decodePoint_encoded)
  have "multiply L ?B (bytesToNumber ska) = nTimes L (bytesToNumber ska) ?B"
    using ok B(1) by (rule multiply_nTimes)
  also have "\<dots> = nTimes L (bytesToNumber ska * bytesToNumber skb) (BASE L)"
    using nTimes_mult [OF ok ok_base [OF ok]] by simp
  finally have m: "multiply L ?B (bytesToNumber ska) =
      nTimes L (bytesToNumber ska * bytesToNumber skb) (BASE L)" .
  show ?thesis
    by (simp add: computeSharedSecret_def a hexToBytes_bytesToHex secp_getSharedSecret_def dec m)
qed

lemma ecdh_commutes:
  assumes ok: "library_ok L"
    and A: "getPublicKey L a = Inr A" and B: "getPublicKey L b = Inr B"
  shows "computeSharedSecret L a B = computeSharedSecret L b A"
proof -
  from getPublicKey_Inr [OF ok A] obtain ska pa where
    a: "hexToBytes a = Inr ska" "isValidPrivateKey ska"
       "toRawBytes L (nTimes L (bytesToNumber ska) (BASE L)) True = Some pa" "A = bytesToHex pa"
    by blast
  from getPublicKey_Inr [OF ok B] obtain skb pb where
    b: "hexToBytes b = Inr skb" "isValidPrivateKey skb"
       "toRawBytes L (nTimes L (bytesToNumber skb) (BASE L)) True = Some pb" "B = bytesToHex pb"
    by blast
  show ?thesis
    unfolding a(4) b(4)
    using computeSharedSecret_of_keys [OF ok a(1,2) b(2,3)]
          computeSharedSecret_of_keys [OF ok b(1,2) a(2,3)]
    by (simp add: mult.commute)
qed


section \<open>The sender\<close>

lemma drop_2_bytesToHex [simp]: "drop 2 (bytesToHex bs) = concat (map hexes bs)"
  by (simp add: bytesToHex_def)

lemma secp_fromHex_encoded:
  "library_ok L \<Longrightarrow> onCurve L p \<Longrightarrow> p \<noteq> ZERO L \<Longrightarrow> toRawBytes L p True = Some bs \<Longrightarrow>
     secp_fromHex L (concat (map hexes bs)) = Inr p"
  by (simp add: secp_fromHex_def hexPairs_hexes decodePoint_encoded)

lemma secp_getPublicKey_valid:
  "library_ok L \<Longrightarrow> isValidPrivateKey sk \<Longrightarrow>
     secp_getPublicKey L sk c = encodePoint L (nTimes L (bytesToNumber sk) (BASE L)) c"
  by (simp add: secp_getPublicKey_def secp_fromPrivateKey_valid)

lemma secp_getPublicKey_invalid:
  "\<not> isValidPrivateKey sk \<Longrightarrow> secp_getPublicKey L sk c = Inl InvalidPrivateKey"
  by (simp add: secp_getPublicKey_def secp_fromPrivateKey_def)

lemma hexToBytes_0x_hexes: "hexToBytes (CHR ''0'' # CHR ''x'' # concat (map hexes bs)) = Inr bs"
  using hexToBytes_bytesToHex [of bs] by (simp add: bytesToHex_def)

lemma length_bytesToHex: "length (bytesToHex bs) = 2 + 2 * length bs"
  by (simp add: bytesToHex_def length_hexes)

lemma sliceLast_digest:
  "library_ok L \<Longrightarrow>
     sliceLast 40 (bytesToHex (keccak_256 L bs)) = drop 26 (bytesToHex (keccak_256 L bs))"
  by (simp add: sliceLast_def length_bytesToHex ok_digest)

lemma nTimes_sum:
  "library_ok L \<Longrightarrow> pointAdd L (nTimes L j (BASE L)) (nTimes L k (BASE L)) = nTimes L (j + k) (BASE L)"
  by (simp add: nTimes_add ok_base)

text \<open>The sender, when every library call succeeds.\<close>

lemma generateStealthAddress_forward:
  assumes ok: "library_ok L"
    and spend: "isValidPrivateKey sks" "toRawBytes L (nTimes L (bytesToNumber sks) (BASE L)) True = Some ps"
    and view: "isValidPrivateKey skv" "toRawBytes L (nTimes L (bytesToNumber skv) (BASE L)) True = Some pv"
    and eph: "isValidPrivateKey r" "toRawBytes L (nTimes L (bytesToNumber r) (BASE L)) True = Some pe"
    and shared: "toRawBytes L (nTimes L (bytesToNumber r * bytesToNumber skv) (BASE L)) True = Some S"
    and scalar: "isValidPrivateKey (keccak_256 L S)"
                "toRawBytes L (nTimes L (bytesToNumber (keccak_256 L S)) (BASE L)) True = Some sG"
    and stealth:
      "toRawBytes L (nTimes L (bytesToNumber sks + bytesToNumber (keccak_256 L S)) (BASE L)) True = Some c"
      "toRawBytes L (nTimes L (bytesToNumber sks + bytesToNumber (keccak_256 L S)) (BASE L)) False = Some u"
  shows "generateStealthAddress L r \<lparr>spendingPubKey = bytesToHex ps, viewingPubKey = bytesToHex pv\<rparr> =
           Inr \<lparr> stealthAddress = ''0x'' @ drop 26 (bytesToHex (keccak_256 L (drop 1 u))),
                 ephemeralPubKey = bytesToHex pe,
                 viewTag = at0 (keccak_256 L S),
                 ciphertext = ''0x...'' \<rparr>"
proof -
  have e: "getPublicKey L (generatePrivateKey r) = Inr (bytesToHex pe)"
    using ok eph
    by (simp add: getPublicKey_def generatePrivateKey_def hexToBytes_bytesToHex
        secp_getPublicKey_valid encodePoint_def)
  have s: "computeSharedSecret L (generatePrivateKey r) (bytesToHex pv) = Inr (bytesToHex S)"
    using computeSharedSecret_of_keys [OF ok _ eph(1) view, of "generatePrivateKey r"] shared
    by (simp add: generatePrivateKey_def hexToBytes_bytesToHex encodePoint_def)
  have p: "secp_fromHex L (concat (map hexes ps)) = Inr (nTimes L (bytesToNumber sks) (BASE L))"
    using ok valid_key_point [OF ok spend(1)] spend(2) by (rule secp_fromHex_encoded)
  have g: "secp_getPublicKey L (keccak_256 L S) True = Inr sG"
    using ok scalar by (simp add: secp_getPublicKey_valid encodePoint_def)
  have gp: "secp_fromHex L (concat (map hexes sG)) = Inr (nTimes L (bytesToNumber (keccak_256 L S)) (BASE L))"
    using ok valid_key_point [OF ok scalar(1)] scalar(2) by (rule secp_fromHex_encoded)
  show ?thesis
    unfolding generateStealthAddress_def Let_def
    by (simp add: e s p g gp hexToBytes_bytesToHex keccak256_def nTimes_sum [OF ok]
        secp_toHex_def encodePoint_def stealth hexToBytes_0x_hexes sliceLast_digest [OF ok])
qed

text \<open>Conversely, what a returned announcement says of the calls that made it.\<close>

lemma generateStealthAddress_Inr:
  assumes ok: "library_ok L"
    and spend: "isValidPrivateKey sks" "toRawBytes L (nTimes L (bytesToNumber sks) (BASE L)) True = Some ps"
    and view: "isValidPrivateKey skv" "toRawBytes L (nTimes L (bytesToNumber skv) (BASE L)) True = Some pv"
    and gen: "generateStealthAddress L r \<lparr>spendingPubKey = bytesToHex ps, viewingPubKey = bytesToHex pv\<rparr> = Inr a"
  shows "\<exists>pe S u.
           isValidPrivateKey r \<and>
           toRawBytes L (nTimes L (bytesToNumber r) (BASE L)) True = Some pe \<and>
           toRawBytes L (nTimes L (bytesToNumber r * bytesToNumber skv) (BASE L)) True = Some S \<and>
           isValidPrivateKey (keccak_256 L S) \<and>
           toRawBytes L (nTimes L (bytesToNumber sks + bytesToNumber (keccak_256 L S)) (BASE L)) False = Some u \<and>
           a = \<lparr> stealthAddress = ''0x'' @ drop 26 (bytesToHex (keccak_256 L (drop 1 u))),
                 ephemeralPubKey = bytesToHex pe,
                 viewTag = at0 (keccak_256 L S),
                 ciphertext = ''0x...'' \<rparr>"
proof -
  let ?m = "\<lparr>spendingPubKey = bytesToHex ps, viewingPubKey = bytesToHex pv\<rparr>"
  from gen obtain E where E: "getPublicKey L (generatePrivateKey r) = Inr E"
    unfolding generateStealthAddress_def Let_def by (auto simp: andThen_eq_Inr)
  from getPublicKey_Inr [OF ok E] obtain pe where
    r: "isValidPrivateKey r" and pe: "toRawBytes L (nTimes L (bytesToNumber r) (BASE L)) True = Some pe"
    and Epe: "E = bytesToHex pe"
    by (auto simp: generatePrivateKey_def hexToBytes_bytesToHex)
  have css: "computeSharedSecret L (generatePrivateKey r) (bytesToHex pv) =
      andThen (encodePoint L (nTimes L (bytesToNumber r * bytesToNumber skv) (BASE L)) True)
              (\<lambda>sharedSecret. Inr (bytesToHex sharedSecret))"
    using computeSharedSecret_of_keys [OF ok _ r view, of "generatePrivateKey r"]
    by (simp add: generatePrivateKey_def hexToBytes_bytesToHex)
  from gen obtain ss where ss: "computeSharedSecret L (generatePrivateKey r) (bytesToHex pv) = Inr ss"
    unfolding generateStealthAddress_def Let_def by (auto simp: andThen_eq_Inr)
  with css have "andThen (encodePoint L (nTimes L (bytesToNumber r * bytesToNumber skv) (BASE L)) True)
              (\<lambda>sharedSecret. Inr (bytesToHex sharedSecret)) = Inr ss" by simp
  then obtain S where
    S: "toRawBytes L (nTimes L (bytesToNumber r * bytesToNumber skv) (BASE L)) True = Some S"
    and ssS: "ss = bytesToHex S"
    by (auto simp: andThen_eq_Inr encodePoint_Inr)
  have p: "secp_fromHex L (concat (map hexes ps)) = Inr (nTimes L (bytesToNumber sks) (BASE L))"
    using ok valid_key_point [OF ok spend(1)] spend(2) by (rule secp_fromHex_encoded)
  from gen have "\<exists>sG. secp_getPublicKey L (keccak_256 L S) True = Inr sG"
    unfolding generateStealthAddress_def Let_def
    by (auto simp: E ss ssS hexToBytes_bytesToHex keccak256_def p andThen_eq_Inr)
  then obtain sG where g: "secp_getPublicKey L (keccak_256 L S) True = Inr sG" by blast
  have valid: "isValidPrivateKey (keccak_256 L S)"
    using g secp_getPublicKey_invalid [of "keccak_256 L S" L True] by auto
  have sG: "toRawBytes L (nTimes L (bytesToNumber (keccak_256 L S)) (BASE L)) True = Some sG"
    using g by (simp add: secp_getPublicKey_valid [OF ok valid] encodePoint_Inr)
  have gp: "secp_fromHex L (concat (map hexes sG)) = Inr (nTimes L (bytesToNumber (keccak_256 L S)) (BASE L))"
    using ok valid_key_point [OF ok valid] sG by (rule secp_fromHex_encoded)
  let ?P = "nTimes L (bytesToNumber sks + bytesToNumber (keccak_256 L S)) (BASE L)"
  from gen have rest: "andThen (secp_toHex L ?P True) (\<lambda>stealthPubKey.
      andThen (secp_toHex L ?P False) (\<lambda>uncompressedPubKey.
      andThen (hexToBytes (''0x'' @ uncompressedPubKey)) (\<lambda>uncompressedBytes.
        Inr \<lparr> stealthAddress = ''0x'' @ sliceLast 40 (keccak256 L (drop 1 uncompressedBytes)),
              ephemeralPubKey = E, viewTag = at0 (keccak_256 L S), ciphertext = ''0x...'' \<rparr>))) = Inr a"
    unfolding generateStealthAddress_def Let_def
    by (simp add: E ss ssS hexToBytes_bytesToHex keccak256_def p g gp nTimes_sum [OF ok])
  then obtain c u where c: "toRawBytes L ?P True = Some c" and u: "toRawBytes L ?P False = Some u"
    by (auto simp: andThen_eq_Inr secp_toHex_def encodePoint_Inr)
  from rest have "a = \<lparr> stealthAddress = ''0x'' @ drop 26 (bytesToHex (keccak_256 L (drop 1 u))),
                 ephemeralPubKey = bytesToHex pe, viewTag = at0 (keccak_256 L S), ciphertext = ''0x...'' \<rparr>"
    by (simp add: secp_toHex_def encodePoint_def c u hexToBytes_0x_hexes keccak256_def
        sliceLast_digest [OF ok] Epe)
  with r pe S valid u show ?thesis by blast
qed


section \<open>The recipient\<close>

lemma isValidPrivateKey_length: "isValidPrivateKey sk \<Longrightarrow> length sk = 32"
  by (simp add: isValidPrivateKey_def)

lemma calculateViewTag_of_keys:
  assumes ok: "library_ok L"
    and v: "hexToBytes vpriv = Inr skv" "isValidPrivateKey skv"
    and e: "isValidPrivateKey r" "toRawBytes L (nTimes L (bytesToNumber r) (BASE L)) True = Some pe"
    and S: "toRawBytes L (nTimes L (bytesToNumber r * bytesToNumber skv) (BASE L)) True = Some S"
  shows "calculateViewTag L vpriv (bytesToHex pe) =
           Inr (bytesToHex (keccak_256 L S), at0 (keccak_256 L S))"
proof -
  have "computeSharedSecret L vpriv (bytesToHex pe) = Inr (bytesToHex S)"
    using computeSharedSecret_of_keys [OF ok v e] S
    by (simp add: mult.commute encodePoint_def)
  then show ?thesis
    by (simp add: calculateViewTag_def Let_def hexToBytes_bytesToHex keccak256_def)
qed

lemma toString16_nat: "toString16 (int n) = digits16 n"
  by (simp add: toString16_def)

lemma d_stealth_big_nat:
  "d_stealth_big (int a) (int b) = int ((a + b) mod nat CURVE_ORDER)"
proof -
  have "d_stealth_big (int a) (int b) = (int a + int b) mod CURVE_ORDER"
    by (simp add: d_stealth_big_def bigint_rem_nonneg CURVE_ORDER_pos)
  also have "\<dots> = int ((a + b) mod nat CURVE_ORDER)"
    using CURVE_ORDER_pos by (simp add: zmod_int)
  finally show ?thesis .
qed

lemma deriveStealthPrivateKey_of_keys:
  assumes ok: "library_ok L"
    and hex: "take 2 spriv = ''0x''" and sk: "hexToBytes spriv = Inr sks" "isValidPrivateKey sks"
  shows "deriveStealthPrivateKey (bytesToHex (keccak_256 L S)) spriv =
           Inr (''0x'' @ padStart 64 (CHR ''0'')
                  (digits16 ((bytesToNumber sks + bytesToNumber (keccak_256 L S)) mod nat CURVE_ORDER)))"
proof -
  have "keccak_256 L S \<noteq> []" using ok_digest [OF ok, of S] by auto
  then have h: "BigInt (bytesToHex (keccak_256 L S)) = Inr (int (bytesToNumber (keccak_256 L S)))"
    by (rule BigInt_bytesToHex)
  have "sks \<noteq> []" using isValidPrivateKey_length [OF sk(2)] by auto
  with hex sk(1) have d: "BigInt spriv = Inr (int (bytesToNumber sks))"
    by (rule BigInt_hexToBytes)
  show ?thesis
    by (simp add: deriveStealthPrivateKey_def h d d_stealth_big_nat toString16_nat add.commute)
qed

lemma drop_2_hexes: "drop 2 (concat (map hexes bs)) = concat (map hexes (drop 1 bs))"
  by (cases bs) (simp_all add: hexes_def)

lemma publicKeyToAddress_bytesToHex:
  "publicKeyToAddress L (bytesToHex u) =
     Inr (checksumAddress L (''0x'' @ drop 26 (bytesToHex (keccak_256 L (drop 1 u)))))"
proof -
  have "drop 4 (bytesToHex u) = concat (map hexes (drop 1 u))"
    using drop_2_hexes [of u] by (simp add: bytesToHex_def)
  then show ?thesis
    by (simp add: publicKeyToAddress_def hexToBytes_0x_hexes keccak256_def)
qed

lemma privateKeyToAddress_of_number:
  assumes ok: "library_ok L" and d: "0 < d" "d < nat CURVE_ORDER"
    and u: "toRawBytes L (nTimes L d (BASE L)) False = Some u"
  shows "privateKeyToAddress L (''0x'' @ padStart 64 (CHR ''0'') (digits16 d)) =
           Inr (checksumAddress L (''0x'' @ drop 26 (bytesToHex (keccak_256 L (drop 1 u)))))"
proof -
  have "d < 2 ^ 256" using d(2) order_less_2_256 by simp
  from hexPairs_padStart [OF this] obtain bs where
    bs: "hexPairs (padStart 64 (CHR ''0'') (digits16 d)) = Inr bs" "length bs = 32" "bytesToNumber bs = d"
    by blast
  have valid: "isValidPrivateKey bs" using bs d by (simp add: isValidPrivateKey_def)
  have "secp_getPublicKey L bs False = Inr u"
    using u by (simp add: secp_getPublicKey_valid [OF ok valid] bs encodePoint_def)
  then show ?thesis
    by (simp add: privateKeyToAddress_def bs publicKeyToAddress_bytesToHex)
qed

lemma privateKeyToAddress_zero:
  "privateKeyToAddress L (''0x'' @ padStart 64 (CHR ''0'') (digits16 0)) = Inl InvalidPrivateKey"
proof -
  from hexPairs_padStart [of 0] obtain bs where
    bs: "hexPairs (padStart 64 (CHR ''0'') (digits16 0)) = Inr bs" "bytesToNumber bs = 0"
    by auto
  have "\<not> isValidPrivateKey bs" using bs by (simp add: isValidPrivateKey_def)
  then show ?thesis
    by (simp add: privateKeyToAddress_def bs secp_getPublicKey_invalid)
qed

lemma toLowerCase_0x: "toLowerCase (CHR ''0'' # CHR ''x'' # s) = CHR ''0'' # CHR ''x'' # toLowerCase s"
  by (simp add: toLowerCase_def toLowerChar_def)

text \<open>
  The round trip: recipient keys that belong together, an announcement the sender
  returned for them, and a recovered key that is not zero.
\<close>

lemma round_trip:
  assumes ok: "library_ok L"
    and spendKey: "getPublicKey L (spendingPrivKey k) = Inr (spendingPubKey k)"
    and viewKey: "getPublicKey L (viewingPrivKey k) = Inr (viewingPubKey k)"
    and hex: "take 2 (spendingPrivKey k) = ''0x''"
    and gen: "generateStealthAddress L r
                \<lparr>spendingPubKey = spendingPubKey k, viewingPubKey = viewingPubKey k\<rparr> = Inr a"
  shows "\<exists>h dsp s P d derived.
      calculateViewTag L (viewingPrivKey k) (ephemeralPubKey a) = Inr (h, viewTag a) \<and>
      BigInt (spendingPrivKey k) = Inr dsp \<and> BigInt h = Inr s \<and>
      d = (dsp + s) mod CURVE_ORDER \<and>
      deriveStealthPrivateKey h (spendingPrivKey k) =
        Inr (''0x'' @ padStart 64 (CHR ''0'') (toString16 d)) \<and>
      secp_fromHex L (drop 2 (spendingPubKey k)) = Inr P \<and>
      multiply L (BASE L) (nat d) = pointAdd L P (multiply L (BASE L) (nat s)) \<and>
      (d = 0 \<longrightarrow> multiply L (BASE L) (nat d) = ZERO L \<and>
         scanAndRecover L (announcement.truncate a) k =
           ([ConsoleLog [Str ''\<newline>--- Recipient: Scanning & Recovering ---''],
             ConsoleLog [Str ''Calculated View Tag:'', numOrUndefined (viewTag a)],
             ConsoleLog [Str ''View Tag Match! Proceeding to recover...''],
             ConsoleLog [Str ''Derived Stealth Private Key:'',
                         Str (''0x'' @ padStart 64 (CHR ''0'') (toString16 d))]],
            Threw InvalidPrivateKey)) \<and>
      (d \<noteq> 0 \<longrightarrow>
         privateKeyToAddress L (''0x'' @ padStart 64 (CHR ''0'') (toString16 d)) = Inr derived \<and>
         toLowerCase derived = toLowerCase (stealthAddress a) \<and>
         scanAndRecover L (announcement.truncate a) k =
           ([ConsoleLog [Str ''\<newline>--- Recipient: Scanning & Recovering ---''],
             ConsoleLog [Str ''Calculated View Tag:'', numOrUndefined (viewTag a)],
             ConsoleLog [Str ''View Tag Match! Proceeding to recover...''],
             ConsoleLog [Str ''Derived Stealth Private Key:'',
                         Str (''0x'' @ padStart 64 (CHR ''0'') (toString16 d))],
             ConsoleLog [Str ''Derived Stealth Address:'', Str derived],
             ConsoleLog [Str ''SUCCESS: Stealth Address Verified and Private Key Recovered!'']],
            Returned Undefined))"
proof -
  from getPublicKey_Inr [OF ok spendKey] obtain sks ps where
    sks: "hexToBytes (spendingPrivKey k) = Inr sks" "isValidPrivateKey sks"
    and ps: "toRawBytes L (nTimes L (bytesToNumber sks) (BASE L)) True = Some ps"
    and spub: "spendingPubKey k = bytesToHex ps"
    by blast
  from getPublicKey_Inr [OF ok viewKey] obtain skv pv where
    skv: "hexToBytes (viewingPrivKey k) = Inr skv" "isValidPrivateKey skv"
    and pv: "toRawBytes L (nTimes L (bytesToNumber skv) (BASE L)) True = Some pv"
    and vpub: "viewingPubKey k = bytesToHex pv"
    by blast
  from generateStealthAddress_Inr [OF ok sks(2) ps skv(2) pv gen [unfolded spub vpub]]
  obtain pe S u where
    r: "isValidPrivateKey r" and pe: "toRawBytes L (nTimes L (bytesToNumber r) (BASE L)) True = Some pe"
    and S: "toRawBytes L (nTimes L (bytesToNumber r * bytesToNumber skv) (BASE L)) True = Some S"
    and valid: "isValidPrivateKey (keccak_256 L S)"
    and u: "toRawBytes L (nTimes L (bytesToNumber sks + bytesToNumber (keccak_256 L S)) (BASE L)) False = Some u"
    and a: "a = \<lparr> stealthAddress = ''0x'' @ drop 26 (bytesToHex (keccak_256 L (drop 1 u))),
                 ephemeralPubKey = bytesToHex pe,
                 viewTag = at0 (keccak_256 L S),
                 ciphertext = ''0x...'' \<rparr>"
    by blast
  define H where "H = keccak_256 L S"
  define n where "n = (bytesToNumber sks + bytesToNumber H) mod nat CURVE_ORDER"
  define key where "key = ''0x'' @ padStart 64 (CHR ''0'') (digits16 n)"
  have tag: "calculateViewTag L (viewingPrivKey k) (ephemeralPubKey a) = Inr (bytesToHex H, viewTag a)"
    using calculateViewTag_of_keys [OF ok skv r pe S] by (simp add: a H_def)
  have "sks \<noteq> []" using isValidPrivateKey_length [OF sks(2)] by auto
  with hex sks(1) have dsp: "BigInt (spendingPrivKey k) = Inr (int (bytesToNumber sks))"
    by (rule BigInt_hexToBytes)
  have "H \<noteq> []" using ok_digest [OF ok, of S] by (auto simp: H_def)
  then have s: "BigInt (bytesToHex H) = Inr (int (bytesToNumber H))"
    by (rule BigInt_bytesToHex)
  have d: "(int (bytesToNumber sks) + int (bytesToNumber H)) mod CURVE_ORDER = int n"
    using CURVE_ORDER_pos by (simp add: n_def zmod_int)
  have derive: "deriveStealthPrivateKey (bytesToHex H) (spendingPrivKey k) = Inr key"
    using deriveStealthPrivateKey_of_keys [OF ok hex sks, of S] by (simp add: H_def n_def key_def)
  have P: "secp_fromHex L (drop 2 (spendingPubKey k)) = Inr (nTimes L (bytesToNumber sks) (BASE L))"
    using secp_fromHex_encoded [OF ok valid_key_point [OF ok sks(2)] ps] by (simp add: spub)
  have base: "onCurve L (BASE L)" using ok by (rule ok_base)
  have point: "nTimes L n (BASE L) = nTimes L (bytesToNumber sks + bytesToNumber H) (BASE L)"
    unfolding n_def using ok by (rule nTimes_mod_order)
  have pub: "multiply L (BASE L) n =
      pointAdd L (nTimes L (bytesToNumber sks) (BASE L)) (multiply L (BASE L) (bytesToNumber H))"
    by (simp add: multiply_nTimes [OF ok base] point nTimes_sum [OF ok])
  show ?thesis
  proof (cases "n = 0")
    case True
    have z: "multiply L (BASE L) n = ZERO L" using True by (simp add: multiply_nTimes [OF ok base])
    have "privateKeyToAddress L key = Inl InvalidPrivateKey"
      unfolding key_def True by (rule privateKeyToAddress_zero)
    then have "scanAndRecover L (announcement.truncate a) k =
           ([ConsoleLog [Str ''\<newline>--- Recipient: Scanning & Recovering ---''],
             ConsoleLog [Str ''Calculated View Tag:'', numOrUndefined (viewTag a)],
             ConsoleLog [Str ''View Tag Match! Proceeding to recover...''],
             ConsoleLog [Str ''Derived Stealth Private Key:'', Str key]],
            Threw InvalidPrivateKey)"
      unfolding scanAndRecover_def
      by (simp add: announcement.truncate_def tag derive Let_def)
    with tag dsp s d derive P pub z True show ?thesis
      by - (rule exI [of _ "bytesToHex H"], rule exI [of _ "int (bytesToNumber sks)"],
          rule exI [of _ "int (bytesToNumber H)"], rule exI [of _ "nTimes L (bytesToNumber sks) (BASE L)"],
          rule exI [of _ "int n"], rule exI [of _ "[]"],
          simp add: toString16_nat toString16_def key_def)
  next
    case False
    have n: "0 < n" "n < nat CURVE_ORDER" using False order_pos by (simp_all add: n_def)
    have u': "toRawBytes L (nTimes L n (BASE L)) False = Some u" using u by (simp add: point H_def)
    define derived where
      "derived = checksumAddress L (''0x'' @ drop 26 (bytesToHex (keccak_256 L (drop 1 u))))"
    have addr: "privateKeyToAddress L key = Inr derived"
      unfolding key_def derived_def using ok n u' by (rule privateKeyToAddress_of_number)
    have low: "toLowerCase derived = toLowerCase (stealthAddress a)"
      by (simp add: derived_def toLowerCase_checksumAddress a toLowerCase_0x)
    have "scanAndRecover L (announcement.truncate a) k =
           ([ConsoleLog [Str ''\<newline>--- Recipient: Scanning & Recovering ---''],
             ConsoleLog [Str ''Calculated View Tag:'', numOrUndefined (viewTag a)],
             ConsoleLog [Str ''View Tag Match! Proceeding to recover...''],
             ConsoleLog [Str ''Derived Stealth Private Key:'', Str key],
             ConsoleLog [Str ''Derived Stealth Address:'', Str derived],
             ConsoleLog [Str ''SUCCESS: Stealth Address Verified and Private Key Recovered!'']],
            Returned Undefined)"
      unfolding scanAndRecover_def
      by (simp add: announcement.truncate_def tag derive addr low Let_def)
    with tag dsp s d derive P pub False addr low show ?thesis
      by - (rule exI [of _ "bytesToHex H"], rule exI [of _ "int (bytesToNumber sks)"],
          rule exI [of _ "int (bytesToNumber H)"], rule exI [of _ "nTimes L (bytesToNumber sks) (BASE L)"],
          rule exI [of _ "int n"], rule exI [of _ derived],
          simp add: toString16_nat toString16_def key_def)
  qed
qed


section \<open>The small instance satisfies the contract\<close>

lemma length_numberToBytesBE [simp]: "length (numberToBytesBE len n) = len"
  by (induction len arbitrary: n) simp_all

lemma bytesToNumber_snoc: "bytesToNumber (bs @ [b]) = bytesToNumber bs * 256 + unat b"
  by (simp add: bytesToNumber_def)

lemma bytesToNumber_numberToBytesBE: "bytesToNumber (numberToBytesBE len n) = n mod 256 ^ len"
proof (induction len arbitrary: n)
  case 0
  then show ?case by (simp add: bytesToNumber_def)
next
  case (Suc len)
  have "unat (of_nat (n mod 256) :: byte) = n mod 256"
    by (simp add: unat_of_nat)
  then have "bytesToNumber (numberToBytesBE (Suc len) n) = (n div 256) mod 256 ^ len * 256 + n mod 256"
    by (simp add: bytesToNumber_snoc Suc.IH)
  also have "\<dots> = n mod 256 ^ Suc len"
    by (simp add: mod_mult2_eq mult.commute)
  finally show ?case .
qed

lemma numberToBytesBE_numeral:
  "numberToBytesBE (numeral k) n = numberToBytesBE (pred_numeral k) (n div 256) @ [of_nat (n mod 256)]"
proof -
  have e: "(numeral k :: nat) = Suc (pred_numeral k)" by (rule numeral_eq_Suc)
  show ?thesis unfolding e by (rule numberToBytesBE.simps)
qed


lemma toy_fields [simp]:
  "ZERO toyLibrary = 0" "BASE toyLibrary = 1"
  "onCurve toyLibrary p \<longleftrightarrow> p < nat CURVE_ORDER"
  "pointAdd toyLibrary a b = (a + b) mod nat CURVE_ORDER"
  "toRawBytes toyLibrary p c = Some (if c then 2 # numberToBytesBE 32 p
                else 4 # numberToBytesBE 32 p @ numberToBytesBE 32 p)"
  "keccak_256 toyLibrary bs = numberToBytesBE 32 ((bytesToNumber bs + 7) mod 2 ^ 256)"
  by (simp_all add: toyLibrary_def)

lemma toy_fromBytes:
  "fromBytes toyLibrary bs =
     (case bs of [] \<Rightarrow> None
      | prefix # x \<Rightarrow>
          if prefix = 2 \<and> length x = 32 \<and> 0 < bytesToNumber x \<and> bytesToNumber x < nat CURVE_ORDER
          then Some (bytesToNumber x) else None)"
  by (simp add: toyLibrary_def)

lemma toy_nTimes: "q < nat CURVE_ORDER \<Longrightarrow> nTimes toyLibrary k q = (k * q) mod nat CURVE_ORDER"
proof (induction k)
  case 0
  then show ?case by simp
next
  case (Suc k)
  then show ?case by (simp add: mod_add_right_eq)
qed


lemma toy_ok: "library_ok toyLibrary"
  unfolding library_ok_def
proof (intro conjI allI impI)
  show "onCurve toyLibrary (ZERO toyLibrary)" using order_pos by simp
  show "onCurve toyLibrary (BASE toyLibrary)" by (simp add: CURVE_ORDER_def)
  show "onCurve toyLibrary (pointAdd toyLibrary a b)" for a b using order_pos by simp
  show "pointAdd toyLibrary (pointAdd toyLibrary a b) c = pointAdd toyLibrary a (pointAdd toyLibrary b c)" for a b c
    by (simp add: mod_add_left_eq mod_add_right_eq add.assoc)
  show "pointAdd toyLibrary a b = pointAdd toyLibrary b a" for a b
    by (simp add: add.commute)
  show "pointAdd toyLibrary (ZERO toyLibrary) a = a" if "onCurve toyLibrary a" for a
    using that by simp
  show "nTimes toyLibrary (nat CURVE_ORDER) (BASE toyLibrary) = ZERO toyLibrary"
    by (simp add: toy_nTimes CURVE_ORDER_def)
  show "nTimes toyLibrary k (BASE toyLibrary) \<noteq> ZERO toyLibrary" if "0 < k \<and> k < nat CURVE_ORDER" for k
  proof -
    have "(1::nat) < nat CURVE_ORDER" by (simp add: CURVE_ORDER_def)
    then show ?thesis using that by (simp add: toy_nTimes)
  qed
  show "toRawBytes toyLibrary p c \<noteq> None" for p c by simp
  show "fromBytes toyLibrary bs = Some p"
    if "onCurve toyLibrary p \<and> p \<noteq> ZERO toyLibrary \<and> toRawBytes toyLibrary p True = Some bs" for p bs
  proof -
    from that have p: "p < nat CURVE_ORDER" "0 < p" and bs: "bs = 2 # numberToBytesBE 32 p" by auto
    from p order_less_2_256 have "p < 256 ^ 32" by simp
    then have "bytesToNumber (numberToBytesBE 32 p) = p"
      by (simp add: bytesToNumber_numberToBytesBE)
    then show ?thesis using p bs by (simp add: toy_fromBytes)
  qed
  show "onCurve toyLibrary p" if "fromBytes toyLibrary bs = Some p" for bs p
    using that by (auto simp: toy_fromBytes split: list.splits if_splits)
  show "length (keccak_256 toyLibrary bs) = 32" for bs by simp
qed

lemma toy_multiply: "q < nat CURVE_ORDER \<Longrightarrow> multiply toyLibrary q n = (n * q) mod nat CURVE_ORDER"
  using multiply_nTimes [OF toy_ok, of q n] by (simp add: toy_nTimes)



section \<open>Running the scripts on the small instance\<close>

lemma bytesToNumber_be32: "n < 2 ^ 256 \<Longrightarrow> bytesToNumber (numberToBytesBE 32 n) = n"
  by (simp add: bytesToNumber_numberToBytesBE)

lemma bytesToNumber_append:
  "bytesToNumber (xs @ ys) = bytesToNumber xs * 256 ^ length ys + bytesToNumber ys"
proof (induction ys rule: rev_induct)
  case Nil
  then show ?case by (simp add: bytesToNumber_def)
next
  case (snoc y ys)
  have "bytesToNumber (xs @ ys @ [y]) = bytesToNumber (xs @ ys) * 256 + unat y"
    using bytesToNumber_snoc [of "xs @ ys" y] by simp
  then show ?case by (simp add: snoc.IH bytesToNumber_snoc algebra_simps)
qed

lemma bytesToNumber_Cons:
  "bytesToNumber (b # bs) = unat b * 256 ^ length bs + bytesToNumber bs"
  using bytesToNumber_append [of "[b]" bs] by (simp add: bytesToNumber_def)

lemma below_order: "n < nat CURVE_ORDER \<Longrightarrow> n < 2 ^ 256"
  using order_less_2_256 by simp

lemma bytesToNumber_key: "n < nat CURVE_ORDER \<Longrightarrow> bytesToNumber (numberToBytesBE 32 n) = n"
  using below_order by (rule bytesToNumber_be32)

lemma mod_order_below: "k mod nat CURVE_ORDER < 2 ^ 256"
  using order_pos by (intro below_order mod_less_divisor)

lemma toy_valid_key:
  "0 < n \<Longrightarrow> n < nat CURVE_ORDER \<Longrightarrow> isValidPrivateKey (numberToBytesBE 32 n)"
  by (simp add: isValidPrivateKey_def bytesToNumber_key)

lemma toy_point: "nTimes toyLibrary k (Suc 0) = k mod nat CURVE_ORDER"
proof -
  have "(1::nat) < nat CURVE_ORDER" by (simp add: CURVE_ORDER_def)
  then show ?thesis using toy_nTimes [of 1 k] by simp
qed

lemma mod_2_256_drop_prefix:
  "(c * 256 ^ 32 + x + 7) mod 2 ^ 256 = (x + 7) mod (2 ^ 256 :: nat)"
proof -
  have e: "(256::nat) ^ 32 = 2 ^ 256" by simp
  show ?thesis unfolding e add.assoc by (rule mod_mult_self3)
qed

lemma toy_keccak_compressed:
  assumes x: "x < 2 ^ 256"
  shows "keccak_256 toyLibrary (2 # numberToBytesBE 32 x) = numberToBytesBE 32 ((x + 7) mod 2 ^ 256)"
proof -
  have "bytesToNumber (2 # numberToBytesBE 32 x) = 2 * 256 ^ 32 + x"
    using x by (simp add: bytesToNumber_Cons bytesToNumber_be32)
  then have "keccak_256 toyLibrary (2 # numberToBytesBE 32 x) =
      numberToBytesBE 32 ((2 * 256 ^ 32 + x + 7) mod 2 ^ 256)"
    by (simp only: toy_fields)
  then show ?thesis by (simp only: mod_2_256_drop_prefix)
qed

lemma toy_keccak_coordinates:
  assumes x: "x < 2 ^ 256"
  shows "keccak_256 toyLibrary (numberToBytesBE 32 x @ numberToBytesBE 32 x) =
       numberToBytesBE 32 ((x + 7) mod 2 ^ 256)"
proof -
  have "bytesToNumber (numberToBytesBE 32 x @ numberToBytesBE 32 x) = x * 256 ^ 32 + x"
    using x by (simp add: bytesToNumber_append bytesToNumber_be32)
  then have "keccak_256 toyLibrary (numberToBytesBE 32 x @ numberToBytesBE 32 x) =
      numberToBytesBE 32 ((x * 256 ^ 32 + x + 7) mod 2 ^ 256)"
    by (simp only: toy_fields)
  then show ?thesis by (simp only: mod_2_256_drop_prefix)
qed

lemma toy_getPublicKey:
  assumes "0 < n" "n < nat CURVE_ORDER"
  shows "getPublicKey toyLibrary (bytesToHex (numberToBytesBE 32 n)) =
           Inr (bytesToHex (2 # numberToBytesBE 32 n))"
  using assms
  by (simp add: getPublicKey_def hexToBytes_bytesToHex secp_getPublicKey_valid [OF toy_ok]
      toy_valid_key toy_point bytesToNumber_key encodePoint_def)

lemma toy_encode:
  "toRawBytes toyLibrary (nTimes toyLibrary k (BASE toyLibrary)) True =
     Some (2 # numberToBytesBE 32 (k mod nat CURVE_ORDER))"
  "toRawBytes toyLibrary (nTimes toyLibrary k (BASE toyLibrary)) False =
     Some (4 # numberToBytesBE 32 (k mod nat CURVE_ORDER) @ numberToBytesBE 32 (k mod nat CURVE_ORDER))"
  by (simp_all add: toy_point)

lemma toy_generate:
  assumes ds: "0 < ds" "ds < nat CURVE_ORDER" and dv: "0 < dv" "dv < nat CURVE_ORDER"
    and e: "0 < e" "e < nat CURVE_ORDER"
    and s: "s = ((e * dv) mod nat CURVE_ORDER + 7) mod 2 ^ 256" "0 < s" "s < nat CURVE_ORDER"
  shows "generateStealthAddress toyLibrary (numberToBytesBE 32 e)
           \<lparr>spendingPubKey = bytesToHex (2 # numberToBytesBE 32 ds),
            viewingPubKey = bytesToHex (2 # numberToBytesBE 32 dv)\<rparr> =
         Inr \<lparr> stealthAddress = ''0x'' @ drop 26 (bytesToHex (numberToBytesBE 32
                                     (((ds + s) mod nat CURVE_ORDER + 7) mod 2 ^ 256))),
               ephemeralPubKey = bytesToHex (2 # numberToBytesBE 32 e),
               viewTag = at0 (numberToBytesBE 32 s),
               ciphertext = ''0x...'' \<rparr>"
proof -
  define S where "S = 2 # numberToBytesBE 32 ((e * dv) mod nat CURVE_ORDER)"
  define p where "p = (ds + s) mod nat CURVE_ORDER"
  have H: "keccak_256 toyLibrary S = numberToBytesBE 32 s"
    unfolding S_def s(1) using mod_order_below by (rule toy_keccak_compressed)
  have n: "bytesToNumber (numberToBytesBE 32 ds) = ds" "bytesToNumber (numberToBytesBE 32 dv) = dv"
    "bytesToNumber (numberToBytesBE 32 e) = e" "bytesToNumber (numberToBytesBE 32 s) = s"
    using ds dv e s by (simp_all add: bytesToNumber_key)
  have 1: "isValidPrivateKey (numberToBytesBE 32 ds)" using ds by (rule toy_valid_key)
  have 2: "toRawBytes toyLibrary (nTimes toyLibrary (bytesToNumber (numberToBytesBE 32 ds)) (BASE toyLibrary)) True
            = Some (2 # numberToBytesBE 32 ds)"
    unfolding n toy_encode using ds by simp
  have 3: "isValidPrivateKey (numberToBytesBE 32 dv)" using dv by (rule toy_valid_key)
  have 4: "toRawBytes toyLibrary (nTimes toyLibrary (bytesToNumber (numberToBytesBE 32 dv)) (BASE toyLibrary)) True
            = Some (2 # numberToBytesBE 32 dv)"
    unfolding n toy_encode using dv by simp
  have 5: "isValidPrivateKey (numberToBytesBE 32 e)" using e by (rule toy_valid_key)
  have 6: "toRawBytes toyLibrary (nTimes toyLibrary (bytesToNumber (numberToBytesBE 32 e)) (BASE toyLibrary)) True
            = Some (2 # numberToBytesBE 32 e)"
    unfolding n toy_encode using e by simp
  have 7: "toRawBytes toyLibrary (nTimes toyLibrary (bytesToNumber (numberToBytesBE 32 e) *
              bytesToNumber (numberToBytesBE 32 dv)) (BASE toyLibrary)) True = Some S"
    unfolding n toy_encode S_def ..
  have 8: "isValidPrivateKey (keccak_256 toyLibrary S)" unfolding H using s(2,3) by (rule toy_valid_key)
  have 9: "toRawBytes toyLibrary (nTimes toyLibrary (bytesToNumber (keccak_256 toyLibrary S)) (BASE toyLibrary)) True
            = Some (2 # numberToBytesBE 32 s)"
    unfolding H n toy_encode using s by simp
  have 10: "toRawBytes toyLibrary (nTimes toyLibrary (bytesToNumber (numberToBytesBE 32 ds) +
              bytesToNumber (keccak_256 toyLibrary S)) (BASE toyLibrary)) True = Some (2 # numberToBytesBE 32 p)"
    unfolding H n toy_encode p_def ..
  have 11: "toRawBytes toyLibrary (nTimes toyLibrary (bytesToNumber (numberToBytesBE 32 ds) +
              bytesToNumber (keccak_256 toyLibrary S)) (BASE toyLibrary)) False =
              Some (4 # numberToBytesBE 32 p @ numberToBytesBE 32 p)"
    unfolding H n toy_encode p_def ..
  have k: "keccak_256 toyLibrary (drop 1 (4 # numberToBytesBE 32 p @ numberToBytesBE 32 p)) =
      numberToBytesBE 32 ((p + 7) mod 2 ^ 256)"
    using toy_keccak_coordinates [of p] mod_order_below [of "ds + s"] by (simp only: p_def drop_0 drop_Suc_Cons One_nat_def)
  show ?thesis
    using generateStealthAddress_forward [OF toy_ok 1 2 3 4 5 6 7 8 9 10 11]
    unfolding k [unfolded p_def] H p_def .
qed

lemma deriveStealthPrivateKey_bytes:
  assumes "hb \<noteq> []" "sb \<noteq> []"
  shows "deriveStealthPrivateKey (bytesToHex hb) (bytesToHex sb) =
           Inr (''0x'' @ padStart 64 (CHR ''0'')
                  (digits16 ((bytesToNumber sb + bytesToNumber hb) mod nat CURVE_ORDER)))"
  using assms
  by (simp add: deriveStealthPrivateKey_def BigInt_bytesToHex d_stealth_big_nat toString16_nat)

lemma be32_not_Nil: "numberToBytesBE 32 n \<noteq> []"
  using length_numberToBytesBE [of 32 n] by (metis length_0_conv zero_neq_numeral)

lemma toy_calculateViewTag:
  assumes dv: "0 < dv" "dv < nat CURVE_ORDER" and e: "0 < e" "e < nat CURVE_ORDER"
    and s: "s = ((e * dv) mod nat CURVE_ORDER + 7) mod 2 ^ 256"
  shows "calculateViewTag toyLibrary (bytesToHex (numberToBytesBE 32 dv))
           (bytesToHex (2 # numberToBytesBE 32 e)) =
         Inr (bytesToHex (numberToBytesBE 32 s), at0 (numberToBytesBE 32 s))"
proof -
  define S where "S = 2 # numberToBytesBE 32 ((e * dv) mod nat CURVE_ORDER)"
  have H: "keccak_256 toyLibrary S = numberToBytesBE 32 s"
    unfolding S_def s using mod_order_below by (rule toy_keccak_compressed)
  have n: "bytesToNumber (numberToBytesBE 32 dv) = dv" "bytesToNumber (numberToBytesBE 32 e) = e"
    using dv e by (simp_all add: bytesToNumber_key)
  have 1: "hexToBytes (bytesToHex (numberToBytesBE 32 dv)) = Inr (numberToBytesBE 32 dv)"
    by (rule hexToBytes_bytesToHex)
  have 2: "isValidPrivateKey (numberToBytesBE 32 dv)" using dv by (rule toy_valid_key)
  have 3: "isValidPrivateKey (numberToBytesBE 32 e)" using e by (rule toy_valid_key)
  have 4: "toRawBytes toyLibrary (nTimes toyLibrary (bytesToNumber (numberToBytesBE 32 e)) (BASE toyLibrary)) True
            = Some (2 # numberToBytesBE 32 e)"
    unfolding n toy_encode using e by simp
  have 5: "toRawBytes toyLibrary (nTimes toyLibrary (bytesToNumber (numberToBytesBE 32 e) *
              bytesToNumber (numberToBytesBE 32 dv)) (BASE toyLibrary)) True = Some S"
    unfolding n toy_encode S_def ..
  show ?thesis
    using calculateViewTag_of_keys [OF toy_ok 1 2 3 4 5] unfolding H .
qed

lemma toy_privateKeyToAddress:
  assumes "0 < d" "d < nat CURVE_ORDER"
  shows "privateKeyToAddress toyLibrary (''0x'' @ padStart 64 (CHR ''0'') (digits16 d)) =
           Inr (checksumAddress toyLibrary
                  (''0x'' @ drop 26 (bytesToHex (numberToBytesBE 32 ((d + 7) mod 2 ^ 256)))))"
proof -
  have m: "d mod nat CURVE_ORDER = d" using assms by simp
  have u: "toRawBytes toyLibrary (nTimes toyLibrary d (BASE toyLibrary)) False =
      Some (4 # numberToBytesBE 32 d @ numberToBytesBE 32 d)"
    unfolding toy_encode m ..
  have k: "keccak_256 toyLibrary (drop 1 (4 # numberToBytesBE 32 d @ numberToBytesBE 32 d)) =
      numberToBytesBE 32 ((d + 7) mod 2 ^ 256)"
    using toy_keccak_coordinates [OF below_order [OF assms(2)]]
    by (simp only: drop_0 drop_Suc_Cons One_nat_def)
  show ?thesis
    using privateKeyToAddress_of_number [OF toy_ok assms u] unfolding k .
qed

text \<open>The scanner on the small instance, when the view tag matches.\<close>

lemma toy_scan_matching:
  assumes ds: "ds < nat CURVE_ORDER" and dv: "0 < dv" "dv < nat CURVE_ORDER"
    and e: "0 < e" "e < nat CURVE_ORDER"
    and s: "s = ((e * dv) mod nat CURVE_ORDER + 7) mod 2 ^ 256" "s < nat CURVE_ORDER"
    and tag: "t = at0 (numberToBytesBE 32 s)"
    and d: "d = (ds + s) mod nat CURVE_ORDER"
  shows "scanAndRecover toyLibrary
           \<lparr>stealthAddress = addr, ephemeralPubKey = bytesToHex (2 # numberToBytesBE 32 e), viewTag = t\<rparr>
           \<lparr>spendingPubKey = sp, viewingPubKey = vp,
            spendingPrivKey = bytesToHex (numberToBytesBE 32 ds),
            viewingPrivKey = bytesToHex (numberToBytesBE 32 dv)\<rparr> =
         (let key = ''0x'' @ padStart 64 (CHR ''0'') (digits16 d);
              derived = checksumAddress toyLibrary
                  (''0x'' @ drop 26 (bytesToHex (numberToBytesBE 32 ((d + 7) mod 2 ^ 256))));
              out4 = [ConsoleLog [Str ''\<newline>--- Recipient: Scanning & Recovering ---''],
                      ConsoleLog [Str ''Calculated View Tag:'', numOrUndefined t],
                      ConsoleLog [Str ''View Tag Match! Proceeding to recover...''],
                      ConsoleLog [Str ''Derived Stealth Private Key:'', Str key]]
          in if d = 0 then (out4, Threw InvalidPrivateKey)
             else if toLowerCase derived = toLowerCase addr
             then (out4 @ [ConsoleLog [Str ''Derived Stealth Address:'', Str derived],
                           ConsoleLog [Str ''SUCCESS: Stealth Address Verified and Private Key Recovered!'']],
                   Returned Undefined)
             else (out4 @ [ConsoleLog [Str ''Derived Stealth Address:'', Str derived],
                           ConsoleError [Str ''FAILURE: Derived address does not match announcement.'']],
                   Returned Undefined))"
proof -
  have tagc: "calculateViewTag toyLibrary (bytesToHex (numberToBytesBE 32 dv))
           (bytesToHex (2 # numberToBytesBE 32 e)) =
         Inr (bytesToHex (numberToBytesBE 32 s), t)"
    unfolding tag using dv e s(1) by (rule toy_calculateViewTag)
  have n: "bytesToNumber (numberToBytesBE 32 ds) = ds" "bytesToNumber (numberToBytesBE 32 s) = s"
    using ds s(2) by (simp_all add: bytesToNumber_key)
  have derive: "deriveStealthPrivateKey (bytesToHex (numberToBytesBE 32 s)) (bytesToHex (numberToBytesBE 32 ds))
      = Inr (''0x'' @ padStart 64 (CHR ''0'') (digits16 d))"
    using deriveStealthPrivateKey_bytes [OF be32_not_Nil be32_not_Nil, of s ds] unfolding n d .
  show ?thesis
  proof (cases "d = 0")
    case True
    have "privateKeyToAddress toyLibrary (''0x'' @ padStart 64 (CHR ''0'') (digits16 d)) = Inl InvalidPrivateKey"
      unfolding True by (rule privateKeyToAddress_zero)
    then show ?thesis
      unfolding scanAndRecover_def using True by (simp add: tagc derive Let_def)
  next
    case False
    then have "0 < d" "d < nat CURVE_ORDER" using order_pos by (simp_all add: d)
    then have "privateKeyToAddress toyLibrary (''0x'' @ padStart 64 (CHR ''0'') (digits16 d)) =
           Inr (checksumAddress toyLibrary
                  (''0x'' @ drop 26 (bytesToHex (numberToBytesBE 32 ((d + 7) mod 2 ^ 256)))))"
      by (rule toy_privateKeyToAddress)
    then show ?thesis
      unfolding scanAndRecover_def using False by (simp add: tagc derive Let_def)
  qed
qed

text \<open>The scanner on the small instance, when the view tag does not match.\<close>

lemma toy_scan_rejecting:
  assumes dv: "0 < dv" "dv < nat CURVE_ORDER" and e: "0 < e" "e < nat CURVE_ORDER"
    and s: "s = ((e * dv) mod nat CURVE_ORDER + 7) mod 2 ^ 256"
    and tag: "t \<noteq> at0 (numberToBytesBE 32 s)"
  shows "scanAndRecover toyLibrary
           \<lparr>stealthAddress = addr, ephemeralPubKey = bytesToHex (2 # numberToBytesBE 32 e), viewTag = t\<rparr>
           \<lparr>spendingPubKey = sp, viewingPubKey = vp, spendingPrivKey = spriv,
            viewingPrivKey = bytesToHex (numberToBytesBE 32 dv)\<rparr> =
         ([ConsoleLog [Str ''\<newline>--- Recipient: Scanning & Recovering ---''],
           ConsoleLog [Str ''Calculated View Tag:'', numOrUndefined (at0 (numberToBytesBE 32 s))],
           ConsoleLog [Str ''View Tag Mismatch! Not for us.'']],
          Returned Undefined)"
proof -
  have tagc: "calculateViewTag toyLibrary (bytesToHex (numberToBytesBE 32 dv))
           (bytesToHex (2 # numberToBytesBE 32 e)) =
         Inr (bytesToHex (numberToBytesBE 32 s), at0 (numberToBytesBE 32 s))"
    using dv e s by (rule toy_calculateViewTag)
  show ?thesis
    unfolding scanAndRecover_def using tag by (simp add: tagc Let_def)
qed

subsection \<open>Literals\<close>

lemmas evaluate_hex = numberToBytesBE_numeral bytesToHex_def hexes_def hexDigit_def

lemma private_2: "bytesToHex (numberToBytesBE 32 2) = ''0x0000000000000000000000000000000000000000000000000000000000000002''"
  by (simp add: evaluate_hex)

lemma private_3: "bytesToHex (numberToBytesBE 32 3) = ''0x0000000000000000000000000000000000000000000000000000000000000003''"
  by (simp add: evaluate_hex)

lemma private_5: "bytesToHex (numberToBytesBE 32 5) = ''0x0000000000000000000000000000000000000000000000000000000000000005''"
  by (simp add: evaluate_hex)

lemma public_2: "bytesToHex (2 # numberToBytesBE 32 2) = ''0x020000000000000000000000000000000000000000000000000000000000000002''"
  by (simp add: evaluate_hex)

lemma public_3: "bytesToHex (2 # numberToBytesBE 32 3) = ''0x020000000000000000000000000000000000000000000000000000000000000003''"
  by (simp add: evaluate_hex)

lemma public_5: "bytesToHex (2 # numberToBytesBE 32 5) = ''0x020000000000000000000000000000000000000000000000000000000000000005''"
  by (simp add: evaluate_hex)

lemma public_6: "bytesToHex (2 # numberToBytesBE 32 6) = ''0x020000000000000000000000000000000000000000000000000000000000000006''"
  by (simp add: evaluate_hex)

lemma private_degenerate: "bytesToHex (numberToBytesBE 32 (nat CURVE_ORDER - 13)) = ''0xfffffffffffffffffffffffffffffffebaaedce6af48a03bbfd25e8cd0364134''"
  by (simp add: evaluate_hex CURVE_ORDER_def)

lemma public_degenerate: "bytesToHex (2 # numberToBytesBE 32 (nat CURVE_ORDER - 13)) = ''0x02fffffffffffffffffffffffffffffffebaaedce6af48a03bbfd25e8cd0364134''"
  by (simp add: evaluate_hex CURVE_ORDER_def)

lemma random_3: "numberToBytesBE 32 3 = [0, 0, 0, 0, 0, 0, 0, 0, 0, 0, 0, 0, 0, 0, 0, 0, 0, 0, 0, 0, 0, 0, 0, 0, 0, 0, 0, 0, 0, 0, 0, 3]"
  by (simp add: numberToBytesBE_numeral)

lemma digest_13: "numberToBytesBE 32 13 = [0, 0, 0, 0, 0, 0, 0, 0, 0, 0, 0, 0, 0, 0, 0, 0, 0, 0, 0, 0, 0, 0, 0, 0, 0, 0, 0, 0, 0, 0, 0, 13]"
  by (simp add: numberToBytesBE_numeral)

lemma address_25: "''0x'' @ drop 26 (bytesToHex (numberToBytesBE 32 25)) = ''0x0000000000000000000000000000000000000019''"
  by (simp add: evaluate_hex)

lemma address_7: "''0x'' @ drop 26 (bytesToHex (numberToBytesBE 32 7)) = ''0x0000000000000000000000000000000000000007''"
  by (simp add: evaluate_hex)


lemma replicate_numeral: "replicate (numeral k) x = x # replicate (pred_numeral k) x"
proof -
  have e: "(numeral k :: nat) = Suc (pred_numeral k)" by (rule numeral_eq_Suc)
  show ?thesis unfolding e by simp
qed

lemma zero_key_literal:
  "padStart 64 (CHR ''0'') (digits16 0) = ''0000000000000000000000000000000000000000000000000000000000000000''"
  by (simp add: padStart_def digits16_small hexDigit_def replicate_numeral)

lemma private_13: "bytesToHex (numberToBytesBE 32 13) = ''0x000000000000000000000000000000000000000000000000000000000000000d''"
  by (simp add: evaluate_hex)

lemma at0_digest_13: "at0 (numberToBytesBE 32 13) = Some 0"
  by (simp add: digest_13 at0_def)

lemma drop_address_25: "drop 26 (bytesToHex (numberToBytesBE 32 25)) = ''0000000000000000000000000000000000000019''"
  by (simp add: evaluate_hex)

lemma drop_address_7: "drop 26 (bytesToHex (numberToBytesBE 32 7)) = ''0000000000000000000000000000000000000007''"
  by (simp add: evaluate_hex)

lemma toy_getPublicKey_5: "getPublicKey toyLibrary ''0x0000000000000000000000000000000000000000000000000000000000000005'' = Inr ''0x020000000000000000000000000000000000000000000000000000000000000005''"
  using toy_getPublicKey [of 5] by (simp add: private_5 public_5 CURVE_ORDER_def)

lemma toy_getPublicKey_2: "getPublicKey toyLibrary ''0x0000000000000000000000000000000000000000000000000000000000000002'' = Inr ''0x020000000000000000000000000000000000000000000000000000000000000002''"
  using toy_getPublicKey [of 2] by (simp add: private_2 public_2 CURVE_ORDER_def)

lemma toy_getPublicKey_3: "getPublicKey toyLibrary ''0x0000000000000000000000000000000000000000000000000000000000000003'' = Inr ''0x020000000000000000000000000000000000000000000000000000000000000003''"
  using toy_getPublicKey [of 3] by (simp add: private_3 public_3 CURVE_ORDER_def)

lemma toy_getPublicKey_degenerate:
  "getPublicKey toyLibrary ''0xfffffffffffffffffffffffffffffffebaaedce6af48a03bbfd25e8cd0364134'' =
     Inr ''0x02fffffffffffffffffffffffffffffffebaaedce6af48a03bbfd25e8cd0364134''"
  using toy_getPublicKey [of "nat CURVE_ORDER - 13"]
  by (simp add: private_degenerate public_degenerate) (simp add: CURVE_ORDER_def)

lemma toy_generate_example:
  "generateStealthAddress toyLibrary [0, 0, 0, 0, 0, 0, 0, 0, 0, 0, 0, 0, 0, 0, 0, 0, 0, 0, 0, 0, 0, 0, 0, 0, 0, 0, 0, 0, 0, 0, 0, 3]
      \<lparr>spendingPubKey = ''0x020000000000000000000000000000000000000000000000000000000000000005'',
       viewingPubKey = ''0x020000000000000000000000000000000000000000000000000000000000000002''\<rparr> =
   Inr \<lparr>stealthAddress = ''0x0000000000000000000000000000000000000019'',
       ephemeralPubKey = ''0x020000000000000000000000000000000000000000000000000000000000000003'',
       viewTag = Some 0, ciphertext = ''0x...''\<rparr>"
  using toy_generate [of 5 2 3 13]
  by (simp add: public_5 public_2 public_3 [unfolded random_3] random_3 at0_digest_13
      CURVE_ORDER_def drop_address_25)

lemma toy_generate_degenerate:
  "generateStealthAddress toyLibrary [0, 0, 0, 0, 0, 0, 0, 0, 0, 0, 0, 0, 0, 0, 0, 0, 0, 0, 0, 0, 0, 0, 0, 0, 0, 0, 0, 0, 0, 0, 0, 3]
      \<lparr>spendingPubKey = ''0x02fffffffffffffffffffffffffffffffebaaedce6af48a03bbfd25e8cd0364134'',
       viewingPubKey = ''0x020000000000000000000000000000000000000000000000000000000000000002''\<rparr> =
   Inr \<lparr>stealthAddress = ''0x0000000000000000000000000000000000000007'',
       ephemeralPubKey = ''0x020000000000000000000000000000000000000000000000000000000000000003'',
       viewTag = Some 0, ciphertext = ''0x...''\<rparr>"
proof -
  have 1: "0 < nat CURVE_ORDER - 13" "nat CURVE_ORDER - 13 < nat CURVE_ORDER"
    by (simp_all add: CURVE_ORDER_def)
  have 2: "(0::nat) < 2" "2 < nat CURVE_ORDER" "(0::nat) < 3" "3 < nat CURVE_ORDER"
    "(0::nat) < 13" "13 < nat CURVE_ORDER"
    by (simp_all add: CURVE_ORDER_def)
  have 3: "13 = ((3 * 2) mod nat CURVE_ORDER + 7) mod (2 ^ 256 :: nat)"
    by (simp add: CURVE_ORDER_def)
  have 4: "((nat CURVE_ORDER - 13 + 13) mod nat CURVE_ORDER + 7) mod (2 ^ 256 :: nat) = 7"
    by (simp add: CURVE_ORDER_def)
  show ?thesis
    using toy_generate [OF 1 2(1,2,3,4) 3 2(5,6)] unfolding 4
    by (simp add: public_degenerate public_2 public_3 [unfolded random_3] random_3 at0_digest_13
        drop_address_7)
qed

lemma toy_scan_degenerate:
  "scanAndRecover toyLibrary
      \<lparr>stealthAddress = ''0x0000000000000000000000000000000000000007'',
       ephemeralPubKey = ''0x020000000000000000000000000000000000000000000000000000000000000003'',
       viewTag = Some 0\<rparr>
      \<lparr>spendingPubKey = ''0x02fffffffffffffffffffffffffffffffebaaedce6af48a03bbfd25e8cd0364134'',
       viewingPubKey = ''0x020000000000000000000000000000000000000000000000000000000000000002'',
       spendingPrivKey = ''0xfffffffffffffffffffffffffffffffebaaedce6af48a03bbfd25e8cd0364134'',
       viewingPrivKey = ''0x0000000000000000000000000000000000000000000000000000000000000002''\<rparr> =
   ([ConsoleLog [Str ''\<newline>--- Recipient: Scanning & Recovering ---''],
     ConsoleLog [Str ''Calculated View Tag:'', Num 0],
     ConsoleLog [Str ''View Tag Match! Proceeding to recover...''],
     ConsoleLog [Str ''Derived Stealth Private Key:'',
                 Str ''0x0000000000000000000000000000000000000000000000000000000000000000'']],
    Threw InvalidPrivateKey)"
proof -
  have 1: "nat CURVE_ORDER - 13 < nat CURVE_ORDER"
    by (simp_all add: CURVE_ORDER_def)
  have 2: "(0::nat) < 2" "2 < nat CURVE_ORDER" "(0::nat) < 3" "3 < nat CURVE_ORDER"
    "13 < nat CURVE_ORDER"
    by (simp_all add: CURVE_ORDER_def)
  have 3: "13 = ((3 * 2) mod nat CURVE_ORDER + 7) mod (2 ^ 256 :: nat)"
    by (simp add: CURVE_ORDER_def)
  have 4: "0 = (nat CURVE_ORDER - 13 + 13) mod nat CURVE_ORDER"
    by (simp add: CURVE_ORDER_def)
  have 5: "Some 0 = at0 (numberToBytesBE 32 13)" by (simp add: at0_digest_13)
  show ?thesis
    using toy_scan_matching [OF 1 2(1,2,3,4) 3 2(5) 5 4, of "''0x0000000000000000000000000000000000000007''"
        "''0x02fffffffffffffffffffffffffffffffebaaedce6af48a03bbfd25e8cd0364134''" "''0x020000000000000000000000000000000000000000000000000000000000000002''"]
    by (simp add: private_degenerate private_2 public_3 zero_key_literal numOrUndefined_def)
qed

lemma zero_bytes_literal: "bytesToHex [0, 0, 0, 0, 0, 0, 0, 0, 0, 0, 0, 0, 0, 0, 0, 0, 0, 0, 0, 0, 0, 0, 0, 0, 0, 0, 0, 0, 0, 0, 0, 0] = ''0x0000000000000000000000000000000000000000000000000000000000000000''"
  by (simp add: bytesToHex_def hexes_def hexDigit_def)

lemma ff_bytes_literal: "bytesToHex [255, 255, 255, 255, 255, 255, 255, 255, 255, 255, 255, 255, 255, 255, 255, 255, 255, 255, 255, 255, 255, 255, 255, 255, 255, 255, 255, 255, 255, 255, 255, 255] = ''0xffffffffffffffffffffffffffffffffffffffffffffffffffffffffffffffff''"
  by (simp add: bytesToHex_def hexes_def hexDigit_def)

lemma getPublicKey_out_of_range:
  "\<not> isValidPrivateKey randomValues \<Longrightarrow>
     getPublicKey L (generatePrivateKey randomValues) = Inl InvalidPrivateKey"
  by (simp add: getPublicKey_def generatePrivateKey_def hexToBytes_bytesToHex secp_getPublicKey_invalid)

section \<open>Claims\<close>

text \<open>
  C7. The recipient's scalar addition \<open>(a + b) % CURVE_ORDER\<close> never returns a value
  at or above \<open>CURVE_ORDER\<close> for non-negative \<open>a\<close> and \<open>b\<close> (it is the mathematical
  remainder there), and for \<open>a = CURVE_ORDER - 1\<close>, \<open>b = 2\<close> it returns 1.
\<close>

theorem C7_scalar_add_mod:
  "0 \<le> a \<Longrightarrow> 0 \<le> b \<Longrightarrow>
     0 \<le> d_stealth_big a b \<and> d_stealth_big a b < CURVE_ORDER \<and>
     d_stealth_big a b = (a + b) mod CURVE_ORDER \<and>
     d_stealth_big (CURVE_ORDER - 1) 2 = 1"
proof -
  assume a: "0 \<le> a" and b: "0 \<le> b"
  have 1: "d_stealth_big a b = (a + b) mod CURVE_ORDER"
    using a b by (simp add: d_stealth_big_def bigint_rem_nonneg CURVE_ORDER_pos)
  have 2: "d_stealth_big (CURVE_ORDER - 1) 2 = 1"
    by (simp add: d_stealth_big_def bigint_rem_def CURVE_ORDER_def)
  show ?thesis using 1 2 CURVE_ORDER_pos by simp
qed

theorem C7_witness:
  "d_stealth_big (CURVE_ORDER - 1) 2 = 1 \<and> d_stealth_big 5 (CURVE_ORDER + 3) = 8 \<and> d_stealth_big 5 (CURVE_ORDER + 3) < CURVE_ORDER"
proof -
  have h1: "(0::int) \<le> 5" by simp
  have h2: "0 \<le> CURVE_ORDER + 3" by (simp add: CURVE_ORDER_def)
  from C7_scalar_add_mod [OF h1 h2]
  show ?thesis by (simp add: CURVE_ORDER_def)
qed

text \<open>
  C1 (as amended). For recipient keys that belong together (each public key is what
  \<open>getPublicKey\<close> returns for the private key) and any announcement \<open>generateStealthAddress\<close>
  returned for their meta-address: the scanner's view tag is the announced one; the key
  it recovers is \<open>d = (spendingPrivKey + hash) mod CURVE_ORDER\<close>; \<open>d\<cdot>G\<close> is the
  stealth public key \<open>spendingPubKey + hash\<cdot>G\<close>; and when \<open>d\<close> is not zero, the
  address of \<open>d\<close> is the announced stealth address (up to letter case) and
  \<open>scanAndRecover\<close> prints its success line. When \<open>d\<close> is zero the stealth public key
  is the point at infinity and \<open>scanAndRecover\<close> ends with the exception of
  \<open>privateKeyToAddress\<close>.
\<close>

theorem C1_round_trip:
  assumes ok: "library_ok L"
    and spendKey: "getPublicKey L (spendingPrivKey k) = Inr (spendingPubKey k)"
    and viewKey: "getPublicKey L (viewingPrivKey k) = Inr (viewingPubKey k)"
    and hex: "take 2 (spendingPrivKey k) = ''0x''"
    and gen: "generateStealthAddress L r
                \<lparr>spendingPubKey = spendingPubKey k, viewingPubKey = viewingPubKey k\<rparr> = Inr a"
  shows "\<exists>h dsp s P d derived.
      calculateViewTag L (viewingPrivKey k) (ephemeralPubKey a) = Inr (h, viewTag a) \<and>
      BigInt (spendingPrivKey k) = Inr dsp \<and> BigInt h = Inr s \<and>
      d = (dsp + s) mod CURVE_ORDER \<and>
      deriveStealthPrivateKey h (spendingPrivKey k) =
        Inr (''0x'' @ padStart 64 (CHR ''0'') (toString16 d)) \<and>
      secp_fromHex L (drop 2 (spendingPubKey k)) = Inr P \<and>
      multiply L (BASE L) (nat d) = pointAdd L P (multiply L (BASE L) (nat s)) \<and>
      (d = 0 \<longrightarrow> multiply L (BASE L) (nat d) = ZERO L \<and>
         scanAndRecover L (announcement.truncate a) k =
           ([ConsoleLog [Str ''\<newline>--- Recipient: Scanning & Recovering ---''],
             ConsoleLog [Str ''Calculated View Tag:'', numOrUndefined (viewTag a)],
             ConsoleLog [Str ''View Tag Match! Proceeding to recover...''],
             ConsoleLog [Str ''Derived Stealth Private Key:'',
                         Str (''0x'' @ padStart 64 (CHR ''0'') (toString16 d))]],
            Threw InvalidPrivateKey)) \<and>
      (d \<noteq> 0 \<longrightarrow>
         privateKeyToAddress L (''0x'' @ padStart 64 (CHR ''0'') (toString16 d)) = Inr derived \<and>
         toLowerCase derived = toLowerCase (stealthAddress a) \<and>
         scanAndRecover L (announcement.truncate a) k =
           ([ConsoleLog [Str ''\<newline>--- Recipient: Scanning & Recovering ---''],
             ConsoleLog [Str ''Calculated View Tag:'', numOrUndefined (viewTag a)],
             ConsoleLog [Str ''View Tag Match! Proceeding to recover...''],
             ConsoleLog [Str ''Derived Stealth Private Key:'',
                         Str (''0x'' @ padStart 64 (CHR ''0'') (toString16 d))],
             ConsoleLog [Str ''Derived Stealth Address:'', Str derived],
             ConsoleLog [Str ''SUCCESS: Stealth Address Verified and Private Key Recovered!'']],
            Returned Undefined))"
  using assms by (rule round_trip)

theorem C1_witness:
  "scanAndRecover toyLibrary
      \<lparr>stealthAddress = ''0x0000000000000000000000000000000000000019'',
       ephemeralPubKey = ''0x020000000000000000000000000000000000000000000000000000000000000003'',
       viewTag = Some 0\<rparr>
      \<lparr>spendingPubKey = ''0x020000000000000000000000000000000000000000000000000000000000000005'',
       viewingPubKey = ''0x020000000000000000000000000000000000000000000000000000000000000002'',
       spendingPrivKey = ''0x0000000000000000000000000000000000000000000000000000000000000005'',
       viewingPrivKey = ''0x0000000000000000000000000000000000000000000000000000000000000002''\<rparr> =
   ([ConsoleLog [Str ''\<newline>--- Recipient: Scanning & Recovering ---''],
     ConsoleLog [Str ''Calculated View Tag:'', Num 0],
     ConsoleLog [Str ''View Tag Match! Proceeding to recover...''],
     ConsoleLog [Str ''Derived Stealth Private Key:'',
                 Str ''0x0000000000000000000000000000000000000000000000000000000000000012''],
     ConsoleLog [Str ''Derived Stealth Address:'',
                 Str (checksumAddress toyLibrary ''0x0000000000000000000000000000000000000019'')],
     ConsoleLog [Str ''SUCCESS: Stealth Address Verified and Private Key Recovered!'']],
    Returned Undefined)"
proof -
  let ?k = "\<lparr>spendingPubKey = ''0x020000000000000000000000000000000000000000000000000000000000000005'',
       viewingPubKey = ''0x020000000000000000000000000000000000000000000000000000000000000002'',
       spendingPrivKey = ''0x0000000000000000000000000000000000000000000000000000000000000005'',
       viewingPrivKey = ''0x0000000000000000000000000000000000000000000000000000000000000002''\<rparr>"
  let ?a = "\<lparr>stealthAddress = ''0x0000000000000000000000000000000000000019'',
       ephemeralPubKey = ''0x020000000000000000000000000000000000000000000000000000000000000003'',
       viewTag = Some 0, ciphertext = ''0x...''\<rparr>"
  have spend: "getPublicKey toyLibrary (spendingPrivKey ?k) = Inr (spendingPubKey ?k)"
    by (simp add: toy_getPublicKey_5)
  have view: "getPublicKey toyLibrary (viewingPrivKey ?k) = Inr (viewingPubKey ?k)"
    by (simp add: toy_getPublicKey_2)
  have hex: "take 2 (spendingPrivKey ?k) = ''0x''" by simp
  have gen: "generateStealthAddress toyLibrary [0, 0, 0, 0, 0, 0, 0, 0, 0, 0, 0, 0, 0, 0, 0, 0, 0, 0, 0, 0, 0, 0, 0, 0, 0, 0, 0, 0, 0, 0, 0, 3]
        \<lparr>spendingPubKey = spendingPubKey ?k, viewingPubKey = viewingPubKey ?k\<rparr> = Inr ?a"
    using toy_generate_example by simp
  from C1_round_trip [OF toy_ok spend view hex gen]
  obtain h dsp s d derived where
    tag: "calculateViewTag toyLibrary (viewingPrivKey ?k) (ephemeralPubKey ?a) = Inr (h, viewTag ?a)"
    and dsp: "BigInt (spendingPrivKey ?k) = Inr dsp" and s: "BigInt h = Inr s"
    and d: "d = (dsp + s) mod CURVE_ORDER"
    and key: "deriveStealthPrivateKey h (spendingPrivKey ?k) =
        Inr (''0x'' @ padStart 64 (CHR ''0'') (toString16 d))"
    and ok: "d \<noteq> 0 \<longrightarrow>
         privateKeyToAddress toyLibrary (''0x'' @ padStart 64 (CHR ''0'') (toString16 d)) = Inr derived \<and>
         toLowerCase derived = toLowerCase (stealthAddress ?a) \<and>
         scanAndRecover toyLibrary (announcement.truncate ?a) ?k =
           ([ConsoleLog [Str ''\<newline>--- Recipient: Scanning & Recovering ---''],
             ConsoleLog [Str ''Calculated View Tag:'', numOrUndefined (viewTag ?a)],
             ConsoleLog [Str ''View Tag Match! Proceeding to recover...''],
             ConsoleLog [Str ''Derived Stealth Private Key:'',
                         Str (''0x'' @ padStart 64 (CHR ''0'') (toString16 d))],
             ConsoleLog [Str ''Derived Stealth Address:'', Str derived],
             ConsoleLog [Str ''SUCCESS: Stealth Address Verified and Private Key Recovered!'']],
            Returned Undefined)"
    by (elim exE conjE) (rule that, assumption+)
  have "calculateViewTag toyLibrary (bytesToHex (numberToBytesBE 32 2)) (bytesToHex (2 # numberToBytesBE 32 3))
      = Inr (bytesToHex (numberToBytesBE 32 13), at0 (numberToBytesBE 32 13))"
    by (rule toy_calculateViewTag) (simp_all add: CURVE_ORDER_def)
  with tag have h: "h = bytesToHex (numberToBytesBE 32 13)"
    by (simp add: private_2 public_3)
  have "s = 13" using s BigInt_bytesToHex [OF be32_not_Nil, of 13] unfolding h
    by (simp add: bytesToNumber_be32)
  moreover have "dsp = 5" using dsp BigInt_bytesToHex [OF be32_not_Nil, of 5]
    by (simp add: private_5 bytesToNumber_be32)
  ultimately have d18: "d = 18" using d by (simp add: CURVE_ORDER_def)
  have k18: "padStart 64 (CHR ''0'') (toString16 18) = ''0000000000000000000000000000000000000000000000000000000000000012''"
    by (simp add: padStart_def toString16_def digits16_big digits16_small hexDigit_def replicate_numeral)
  have "privateKeyToAddress toyLibrary (''0x'' @ padStart 64 (CHR ''0'') (digits16 18)) =
      Inr (checksumAddress toyLibrary (''0x'' @ drop 26 (bytesToHex (numberToBytesBE 32 ((18 + 7) mod 2 ^ 256)))))"
    by (rule toy_privateKeyToAddress) (simp_all add: CURVE_ORDER_def)
  then have derived: "derived = checksumAddress toyLibrary ''0x0000000000000000000000000000000000000019''"
    using ok d18 by (simp add: toString16_def drop_address_25)
  show ?thesis
    using ok d18 k18 derived by (simp add: announcement.truncate_def numOrUndefined_def)
qed

text \<open>
  C1 as stated fails where the recovered key is zero. On the small instance, for the
  recipient whose spending key is \<open>CURVE_ORDER - 13\<close> and the ephemeral key 3 (the hash
  of the shared secret is 13): the keys belong together, the sender returns an
  announcement, and the scanner ends with an exception instead of a recovered key.
\<close>

theorem C1_counterexample:
  "getPublicKey toyLibrary ''0xfffffffffffffffffffffffffffffffebaaedce6af48a03bbfd25e8cd0364134'' =
     Inr ''0x02fffffffffffffffffffffffffffffffebaaedce6af48a03bbfd25e8cd0364134'' \<and>
   getPublicKey toyLibrary ''0x0000000000000000000000000000000000000000000000000000000000000002'' =
     Inr ''0x020000000000000000000000000000000000000000000000000000000000000002'' \<and>
   generateStealthAddress toyLibrary [0, 0, 0, 0, 0, 0, 0, 0, 0, 0, 0, 0, 0, 0, 0, 0, 0, 0, 0, 0, 0, 0, 0, 0, 0, 0, 0, 0, 0, 0, 0, 3]
      \<lparr>spendingPubKey = ''0x02fffffffffffffffffffffffffffffffebaaedce6af48a03bbfd25e8cd0364134'',
       viewingPubKey = ''0x020000000000000000000000000000000000000000000000000000000000000002''\<rparr> =
     Inr \<lparr>stealthAddress = ''0x0000000000000000000000000000000000000007'',
       ephemeralPubKey = ''0x020000000000000000000000000000000000000000000000000000000000000003'',
       viewTag = Some 0, ciphertext = ''0x...''\<rparr> \<and>
   scanAndRecover toyLibrary
      \<lparr>stealthAddress = ''0x0000000000000000000000000000000000000007'',
       ephemeralPubKey = ''0x020000000000000000000000000000000000000000000000000000000000000003'',
       viewTag = Some 0\<rparr>
      \<lparr>spendingPubKey = ''0x02fffffffffffffffffffffffffffffffebaaedce6af48a03bbfd25e8cd0364134'',
       viewingPubKey = ''0x020000000000000000000000000000000000000000000000000000000000000002'',
       spendingPrivKey = ''0xfffffffffffffffffffffffffffffffebaaedce6af48a03bbfd25e8cd0364134'',
       viewingPrivKey = ''0x0000000000000000000000000000000000000000000000000000000000000002''\<rparr> =
   ([ConsoleLog [Str ''\<newline>--- Recipient: Scanning & Recovering ---''],
     ConsoleLog [Str ''Calculated View Tag:'', Num 0],
     ConsoleLog [Str ''View Tag Match! Proceeding to recover...''],
     ConsoleLog [Str ''Derived Stealth Private Key:'',
                 Str ''0x0000000000000000000000000000000000000000000000000000000000000000'']],
    Threw InvalidPrivateKey)"
  using toy_getPublicKey_degenerate toy_getPublicKey_2 toy_generate_degenerate toy_scan_degenerate
  by (intro conjI)

text \<open>
  C3. ECDH commutes: for private keys \<open>a\<close>, \<open>b\<close> whose public keys are \<open>A\<close>, \<open>B\<close>,
  \<open>computeSharedSecret(a, B)\<close> is \<open>computeSharedSecret(b, A)\<close>. With the recipient's
  viewing key for \<open>a\<close> and the ephemeral key for \<open>b\<close> this is the equality of the
  recipient's and the sender's shared secret.
\<close>

theorem C3_ecdh_commutes:
  assumes "library_ok L"
    and "getPublicKey L a = Inr A" and "getPublicKey L b = Inr B"
  shows "computeSharedSecret L a B = computeSharedSecret L b A"
  using assms by (rule ecdh_commutes)

theorem C3_witness:
  "computeSharedSecret toyLibrary ''0x0000000000000000000000000000000000000000000000000000000000000002''
                                  ''0x020000000000000000000000000000000000000000000000000000000000000003'' =
   computeSharedSecret toyLibrary ''0x0000000000000000000000000000000000000000000000000000000000000003''
                                  ''0x020000000000000000000000000000000000000000000000000000000000000002'' \<and>
   computeSharedSecret toyLibrary ''0x0000000000000000000000000000000000000000000000000000000000000003''
                                  ''0x020000000000000000000000000000000000000000000000000000000000000002'' =
   Inr ''0x020000000000000000000000000000000000000000000000000000000000000006''"
proof -
  have "computeSharedSecret toyLibrary (bytesToHex (numberToBytesBE 32 3)) (bytesToHex (2 # numberToBytesBE 32 2))
      = andThen (encodePoint toyLibrary (nTimes toyLibrary (bytesToNumber (numberToBytesBE 32 3) *
          bytesToNumber (numberToBytesBE 32 2)) (BASE toyLibrary)) True)
                   (\<lambda>sharedSecret. Inr (bytesToHex sharedSecret))"
    by (rule computeSharedSecret_of_keys [OF toy_ok hexToBytes_bytesToHex])
       (simp_all add: toy_valid_key bytesToNumber_be32 toy_point CURVE_ORDER_def)
  then have "computeSharedSecret toyLibrary ''0x0000000000000000000000000000000000000000000000000000000000000003''
                                  ''0x020000000000000000000000000000000000000000000000000000000000000002'' =
   Inr ''0x020000000000000000000000000000000000000000000000000000000000000006''"
    by (simp add: private_3 public_2 bytesToNumber_be32 toy_point encodePoint_def CURVE_ORDER_def
        public_6)
  then show ?thesis
    using C3_ecdh_commutes [OF toy_ok toy_getPublicKey_2 toy_getPublicKey_3] by simp
qed


text \<open>
  C4 (as amended). \<open>generatePrivateKey\<close> returns the hex string of exactly the 32 bytes
  it drew: there is no range check and no retry. The value of the string is the
  big-endian value of the draw, whatever it is; a draw that is zero or not below the
  curve order is returned like any other, and the caller observes it when
  \<open>getPublicKey\<close> rejects the key.
\<close>

theorem C4_generatePrivateKey_no_check:
  "hexToBytes (generatePrivateKey randomValues) = Inr randomValues \<and>
   (randomValues \<noteq> [] \<longrightarrow>
      BigInt (generatePrivateKey randomValues) = Inr (int (bytesToNumber randomValues))) \<and>
   (\<not> isValidPrivateKey randomValues \<longrightarrow>
      getPublicKey L (generatePrivateKey randomValues) = Inl InvalidPrivateKey)"
  by (simp add: generatePrivateKey_def hexToBytes_bytesToHex BigInt_bytesToHex
      getPublicKey_out_of_range [unfolded generatePrivateKey_def])

theorem C4_witness:
  "hexToBytes (generatePrivateKey [0, 0, 0, 0, 0, 0, 0, 0, 0, 0, 0, 0, 0, 0, 0, 0, 0, 0, 0, 0, 0, 0, 0, 0, 0, 0, 0, 0, 0, 0, 0, 0]) =
     Inr [0, 0, 0, 0, 0, 0, 0, 0, 0, 0, 0, 0, 0, 0, 0, 0, 0, 0, 0, 0, 0, 0, 0, 0, 0, 0, 0, 0, 0, 0, 0, 0] \<and>
   BigInt (generatePrivateKey [0, 0, 0, 0, 0, 0, 0, 0, 0, 0, 0, 0, 0, 0, 0, 0, 0, 0, 0, 0, 0, 0, 0, 0, 0, 0, 0, 0, 0, 0, 0, 0]) = Inr 0 \<and>
   getPublicKey toyLibrary (generatePrivateKey [0, 0, 0, 0, 0, 0, 0, 0, 0, 0, 0, 0, 0, 0, 0, 0, 0, 0, 0, 0, 0, 0, 0, 0, 0, 0, 0, 0, 0, 0, 0, 0]) = Inl InvalidPrivateKey"
proof -
  have "\<not> isValidPrivateKey [0, 0, 0, 0, 0, 0, 0, 0, 0, 0, 0, 0, 0, 0, 0, 0, 0, 0, 0, 0, 0, 0, 0, 0, 0, 0, 0, 0, 0, 0, 0, 0]"
    by (simp add: isValidPrivateKey_def bytesToNumber_def)
  moreover have "bytesToNumber [0, 0, 0, 0, 0, 0, 0, 0, 0, 0, 0, 0, 0, 0, 0, 0, 0, 0, 0, 0, 0, 0, 0, 0, 0, 0, 0, 0, 0, 0, 0, 0] = 0"
    by (simp add: bytesToNumber_def)
  ultimately show ?thesis
    using C4_generatePrivateKey_no_check [of "[0, 0, 0, 0, 0, 0, 0, 0, 0, 0, 0, 0, 0, 0, 0, 0, 0, 0, 0, 0, 0, 0, 0, 0, 0, 0, 0, 0, 0, 0, 0, 0]" toyLibrary]
    by simp
qed

text \<open>
  C4 as stated fails: a draw of 32 zero bytes is returned as the key zero, and a draw
  of 32 bytes \<open>0xff\<close> as a key above the curve order.
\<close>

theorem C4_counterexample:
  "generatePrivateKey [0, 0, 0, 0, 0, 0, 0, 0, 0, 0, 0, 0, 0, 0, 0, 0, 0, 0, 0, 0, 0, 0, 0, 0, 0, 0, 0, 0, 0, 0, 0, 0] =
     ''0x0000000000000000000000000000000000000000000000000000000000000000'' \<and>
   BigInt ''0x0000000000000000000000000000000000000000000000000000000000000000'' = Inr 0 \<and>
   generatePrivateKey [255, 255, 255, 255, 255, 255, 255, 255, 255, 255, 255, 255, 255, 255, 255, 255, 255, 255, 255, 255, 255, 255, 255, 255, 255, 255, 255, 255, 255, 255, 255, 255] =
     ''0xffffffffffffffffffffffffffffffffffffffffffffffffffffffffffffffff'' \<and>
   BigInt ''0xffffffffffffffffffffffffffffffffffffffffffffffffffffffffffffffff'' = Inr (2 ^ 256 - 1) \<and>
   CURVE_ORDER < 2 ^ 256 - 1"
proof -
  have z: "bytesToNumber [0, 0, 0, 0, 0, 0, 0, 0, 0, 0, 0, 0, 0, 0, 0, 0, 0, 0, 0, 0, 0, 0, 0, 0, 0, 0, 0, 0, 0, 0, 0, 0] = 0"
    by (simp add: bytesToNumber_def)
  have f: "bytesToNumber [255, 255, 255, 255, 255, 255, 255, 255, 255, 255, 255, 255, 255, 255, 255, 255, 255, 255, 255, 255, 255, 255, 255, 255, 255, 255, 255, 255, 255, 255, 255, 255] = 2 ^ 256 - 1"
    by (simp add: bytesToNumber_def)
  have "BigInt (bytesToHex [0, 0, 0, 0, 0, 0, 0, 0, 0, 0, 0, 0, 0, 0, 0, 0, 0, 0, 0, 0, 0, 0, 0, 0, 0, 0, 0, 0, 0, 0, 0, 0]) = Inr 0"
    using BigInt_bytesToHex [of "[0, 0, 0, 0, 0, 0, 0, 0, 0, 0, 0, 0, 0, 0, 0, 0, 0, 0, 0, 0, 0, 0, 0, 0, 0, 0, 0, 0, 0, 0, 0, 0]"] z by simp
  moreover have "BigInt (bytesToHex [255, 255, 255, 255, 255, 255, 255, 255, 255, 255, 255, 255, 255, 255, 255, 255, 255, 255, 255, 255, 255, 255, 255, 255, 255, 255, 255, 255, 255, 255, 255, 255]) = Inr (2 ^ 256 - 1)"
    using BigInt_bytesToHex [of "[255, 255, 255, 255, 255, 255, 255, 255, 255, 255, 255, 255, 255, 255, 255, 255, 255, 255, 255, 255, 255, 255, 255, 255, 255, 255, 255, 255, 255, 255, 255, 255]"] f by simp
  ultimately show ?thesis
    by (simp add: generatePrivateKey_def zero_bytes_literal ff_bytes_literal CURVE_ORDER_def)
qed

text \<open>
  C8. The meta-address string of the second script of \<open>part_001\<close> is \<open>st:eth:0x\<close>, the
  hex digits of the spending public key and the hex digits of the viewing public key,
  with nothing in between: for two keys of 33 bytes it has 9 + 66 + 66 characters, and
  every character after \<open>st:eth:0x\<close> is a hex digit (no second \<open>0x\<close>, no colon).
\<close>

theorem C8_meta_address_string:
  "metaAddressString \<lparr>spendingPubKey = bytesToHex spending, viewingPubKey = bytesToHex viewing\<rparr> =
     ''st:eth:0x'' @ drop 2 (bytesToHex spending) @ drop 2 (bytesToHex viewing) \<and>
   (length spending = 33 \<and> length viewing = 33 \<longrightarrow>
      length (metaAddressString
        \<lparr>spendingPubKey = bytesToHex spending, viewingPubKey = bytesToHex viewing\<rparr>) = 141) \<and>
   (\<forall>c \<in> set (drop 9 (metaAddressString
        \<lparr>spendingPubKey = bytesToHex spending, viewingPubKey = bytesToHex viewing\<rparr>)).
      c \<in> set ''0123456789abcdef'')"
proof -
  let ?m = "\<lparr>spendingPubKey = bytesToHex spending, viewingPubKey = bytesToHex viewing\<rparr>"
  have digit: "hexDigit d \<in> set ''0123456789abcdef''" for d
  proof -
    have "d mod 16 < 16" by simp
    from hexDigit_cases [OF this] show ?thesis
      unfolding hexDigit_def by (elim insertE emptyE) simp_all
  qed
  have digits: "c \<in> set ''0123456789abcdef''" if "c \<in> set (concat (map hexes bs))" for c bs
  proof -
    from that obtain b where "c \<in> set (hexes b)" by auto
    then have "c = hexDigit (unat b div 16) \<or> c = hexDigit (unat b mod 16)"
      by (simp add: hexes_def)
    then show ?thesis using digit by blast
  qed
  have 1: "metaAddressString ?m =
      ''st:eth:0x'' @ drop 2 (bytesToHex spending) @ drop 2 (bytesToHex viewing)"
    by (simp add: metaAddressString_def)
  have 2: "length (metaAddressString ?m) = 141" if "length spending = 33 \<and> length viewing = 33"
    using that by (simp add: metaAddressString_def length_hexes)
  have "drop 9 (metaAddressString ?m) = concat (map hexes spending) @ concat (map hexes viewing)"
    by (simp add: metaAddressString_def)
  then have 3: "\<forall>c \<in> set (drop 9 (metaAddressString ?m)). c \<in> set ''0123456789abcdef''"
    using digits by (metis Un_iff set_append)
  from 1 2 3 show ?thesis by blast
qed

theorem C8_witness:
  "metaAddressString
     \<lparr>spendingPubKey = ''0x020000000000000000000000000000000000000000000000000000000000000005'',
      viewingPubKey = ''0x020000000000000000000000000000000000000000000000000000000000000002''\<rparr> =
   ''st:eth:0x020000000000000000000000000000000000000000000000000000000000000005020000000000000000000000000000000000000000000000000000000000000002''"
proof -
  from C8_meta_address_string [of "2 # numberToBytesBE 32 5" "2 # numberToBytesBE 32 2"]
  have "metaAddressString \<lparr>spendingPubKey = bytesToHex (2 # numberToBytesBE 32 5),
      viewingPubKey = bytesToHex (2 # numberToBytesBE 32 2)\<rparr> =
     ''st:eth:0x'' @ drop 2 (bytesToHex (2 # numberToBytesBE 32 5)) @ drop 2 (bytesToHex (2 # numberToBytesBE 32 2))"
    by (elim conjE)
  then show ?thesis by (simp only: public_5 public_2) simp
qed

text \<open>
  C10. The view-tag check of the scanner is a function of the viewing private key and
  of the announcement's ephemeral public key and view tag only: two runs that agree on
  these take the same branch, whatever the spending keys and the announced address are;
  and a rejected run is the same run for every spending key, so it computes nothing
  from it.
\<close>

theorem C10_view_tag_check_ignores_spending_key:
  assumes "viewingPrivKey k1 = viewingPrivKey k2"
    and "ephemeralPubKey a1 = ephemeralPubKey a2" and "viewTag a1 = viewTag a2"
  shows "(viewTagRejected (scanAndRecover L a1 k1) \<longleftrightarrow> viewTagRejected (scanAndRecover L a2 k2)) \<and>
         (viewTagRejected (scanAndRecover L a1 k1) \<longrightarrow> scanAndRecover L a1 k1 = scanAndRecover L a2 k2)"
  using assms
  unfolding viewTagRejected_def scanAndRecover_def Let_def
  by (auto split: sum.splits prod.splits)

theorem C10_witness:
  "viewTagRejected (scanAndRecover toyLibrary
      \<lparr>stealthAddress = ''0x0000000000000000000000000000000000000019'',
       ephemeralPubKey = ''0x020000000000000000000000000000000000000000000000000000000000000003'',
       viewTag = Some 1\<rparr>
      \<lparr>spendingPubKey = ''0x020000000000000000000000000000000000000000000000000000000000000005'',
       viewingPubKey = ''0x020000000000000000000000000000000000000000000000000000000000000002'',
       spendingPrivKey = ''0x0000000000000000000000000000000000000000000000000000000000000005'',
       viewingPrivKey = ''0x0000000000000000000000000000000000000000000000000000000000000002''\<rparr>) \<and>
   scanAndRecover toyLibrary
      \<lparr>stealthAddress = ''0x0000000000000000000000000000000000000019'',
       ephemeralPubKey = ''0x020000000000000000000000000000000000000000000000000000000000000003'',
       viewTag = Some 1\<rparr>
      \<lparr>spendingPubKey = ''0x020000000000000000000000000000000000000000000000000000000000000005'',
       viewingPubKey = ''0x020000000000000000000000000000000000000000000000000000000000000002'',
       spendingPrivKey = ''0x0000000000000000000000000000000000000000000000000000000000000005'',
       viewingPrivKey = ''0x0000000000000000000000000000000000000000000000000000000000000002''\<rparr> =
   scanAndRecover toyLibrary
      \<lparr>stealthAddress = ''0x0000000000000000000000000000000000000019'',
       ephemeralPubKey = ''0x020000000000000000000000000000000000000000000000000000000000000003'',
       viewTag = Some 1\<rparr>
      \<lparr>spendingPubKey = ''0x020000000000000000000000000000000000000000000000000000000000000007'',
       viewingPubKey = ''0x020000000000000000000000000000000000000000000000000000000000000002'',
       spendingPrivKey = ''0x0000000000000000000000000000000000000000000000000000000000000007'',
       viewingPrivKey = ''0x0000000000000000000000000000000000000000000000000000000000000002''\<rparr>"
proof -
  let ?a = "\<lparr>stealthAddress = ''0x0000000000000000000000000000000000000019'',
       ephemeralPubKey = ''0x020000000000000000000000000000000000000000000000000000000000000003'',
       viewTag = Some 1\<rparr>"
  let ?k1 = "\<lparr>spendingPubKey = ''0x020000000000000000000000000000000000000000000000000000000000000005'',
       viewingPubKey = ''0x020000000000000000000000000000000000000000000000000000000000000002'',
       spendingPrivKey = ''0x0000000000000000000000000000000000000000000000000000000000000005'',
       viewingPrivKey = ''0x0000000000000000000000000000000000000000000000000000000000000002''\<rparr>"
  let ?k2 = "\<lparr>spendingPubKey = ''0x020000000000000000000000000000000000000000000000000000000000000007'',
       viewingPubKey = ''0x020000000000000000000000000000000000000000000000000000000000000002'',
       spendingPrivKey = ''0x0000000000000000000000000000000000000000000000000000000000000007'',
       viewingPrivKey = ''0x0000000000000000000000000000000000000000000000000000000000000002''\<rparr>"
  have 1: "viewingPrivKey ?k1 = viewingPrivKey ?k2" by simp
  have "scanAndRecover toyLibrary ?a ?k1 =
         ([ConsoleLog [Str ''\<newline>--- Recipient: Scanning & Recovering ---''],
           ConsoleLog [Str ''Calculated View Tag:'', numOrUndefined (at0 (numberToBytesBE 32 13))],
           ConsoleLog [Str ''View Tag Mismatch! Not for us.'']],
          Returned Undefined)"
    using toy_scan_rejecting [of 2 3 13 "Some 1" "''0x0000000000000000000000000000000000000019''"
        "''0x020000000000000000000000000000000000000000000000000000000000000005''"
        "''0x020000000000000000000000000000000000000000000000000000000000000002''"
        "''0x0000000000000000000000000000000000000000000000000000000000000005''"]
    by (simp add: private_2 public_3 at0_digest_13 CURVE_ORDER_def)
  then have "viewTagRejected (scanAndRecover toyLibrary ?a ?k1)"
    by (simp add: viewTagRejected_def)
  then show ?thesis
    using C10_view_tag_check_ignores_spending_key [OF 1 refl refl, where L = toyLibrary and ?a1.0 = ?a]
    by simp
qed


end
